theory Spec2Isabelle
  imports Complex_Main
begin

section \<open>Python values, exceptions and integer arithmetic\<close>

text \<open>
  The tiling core of \<^verbatim>\<open>raidionicsseg/Inference/predictions.py\<close> works on numpy arrays.
  An array is its shape, its elements, read at a multi-index, and its floating type. The
  elements are the real numbers that the floats stand for: the source moves them between
  arrays and takes maxima, without arithmetic, and the arrays it writes to are double
  precision, which holds every value of the narrower types exactly. The floating type
  matters where an array is compared with a Python float, which numpy converts to the type
  of the array first. Every exception of the source is a value of \<open>py_error\<close>; a computation
  that may raise returns \<open>py_error + 'a\<close>.
\<close>

datatype py_error =
    ValueError string
  | IndexError
  | TypeError
  | AttributeError
  | NameError
  | ZeroDivisionError
  | ModelError

text \<open>The floating types of numpy: half, single and double precision.\<close>

datatype dtype = Float16 | Float32 | Float64

record ndarray =
  shape :: "nat list"
  elems :: "nat list \<Rightarrow> real"
  dtype :: dtype

text \<open>What \<^verbatim>\<open>model.run\<close> hands back is a Python list of arrays; after the optional
  \<^verbatim>\<open>[0]\<close> of deep supervision the same variable holds an array.\<close>

datatype pyval = Arr ndarray | Lst "ndarray list"

text \<open>The inference session: the outputs for an input, or \<open>None\<close> when the call raises.\<close>

type_synonym model = "ndarray \<Rightarrow> ndarray list option"

definition ebind :: "py_error + 'a \<Rightarrow> ('a \<Rightarrow> py_error + 'b) \<Rightarrow> py_error + 'b" where
  "ebind m f = (case m of Inl e \<Rightarrow> Inl e | Inr x \<Rightarrow> f x)"

fun efold :: "('s \<Rightarrow> 'i \<Rightarrow> py_error + 's) \<Rightarrow> 'i list \<Rightarrow> 's \<Rightarrow> py_error + 's" where
  "efold f [] s = Inr s"
| "efold f (i # is) s = (case f s i of Inl e \<Rightarrow> Inl e | Inr s' \<Rightarrow> efold f is s')"

text \<open>\<^verbatim>\<open>range(a, b)\<close>, \<^verbatim>\<open>ceil(a / b)\<close> and \<^verbatim>\<open>int(n / 2)\<close> on Python integers.\<close>

definition py_range :: "int \<Rightarrow> int \<Rightarrow> int list" where
  "py_range a b = map (\<lambda>k. a + int k) [0..<nat (b - a)]"

definition py_ceil_div :: "int \<Rightarrow> int \<Rightarrow> py_error + int" where
  "py_ceil_div a b = (if b = 0 then Inl ZeroDivisionError else Inr (- ((- a) div b)))"

definition py_int_half :: "int \<Rightarrow> int" where
  "py_int_half n = (if 0 \<le> n then n div 2 else - ((- n) div 2))"

definition list_at :: "'a list \<Rightarrow> nat \<Rightarrow> py_error + 'a" where
  "list_at xs k = (if k < length xs then Inr (xs ! k) else Inl IndexError)"

section \<open>The numpy operations the core uses\<close>

subsection \<open>Creation and reshaping\<close>

definition np_zeros :: "int list \<Rightarrow> py_error + ndarray" where
  "np_zeros dims =
     (if list_ex (\<lambda>d. d < 0) dims then Inl (ValueError ''negative dimensions are not allowed'')
      else Inr \<lparr>shape = map nat dims, elems = (\<lambda>idx. 0), dtype = Float64\<rparr>)"

text \<open>\<^verbatim>\<open>np.expand_dims(a, axis=0)\<close> and \<^verbatim>\<open>np.expand_dims(a, axis=-1)\<close>.\<close>

definition expand_dims_first :: "ndarray \<Rightarrow> ndarray" where
  "expand_dims_first a = \<lparr>shape = 1 # shape a, elems = (\<lambda>idx. elems a (tl idx)), dtype = dtype a\<rparr>"

definition expand_dims_last :: "ndarray \<Rightarrow> ndarray" where
  "expand_dims_last a = \<lparr>shape = shape a @ [1], elems = (\<lambda>idx. elems a (butlast idx)), dtype = dtype a\<rparr>"

definition index_of :: "nat list \<Rightarrow> nat \<Rightarrow> nat" where
  "index_of axes k = length (takeWhile (\<lambda>x. x \<noteq> k) axes)"

text \<open>\<^verbatim>\<open>a.transpose(axes)\<close>: axis \<open>j\<close> of the result is axis \<open>axes ! j\<close> of \<open>a\<close>.\<close>

definition np_transpose :: "ndarray \<Rightarrow> nat list \<Rightarrow> py_error + ndarray" where
  "np_transpose a axes =
     (if sort axes = [0..<length (shape a)]
      then Inr \<lparr>shape = map (\<lambda>k. shape a ! k) axes,
                elems = (\<lambda>idx. elems a (map (\<lambda>k. idx ! index_of axes k) [0..<length axes])),
                dtype = dtype a\<rparr>
      else Inl (ValueError ''axes do not match array''))"

text \<open>Row-major offsets, for \<^verbatim>\<open>np.reshape\<close>.\<close>

fun ravel :: "nat list \<Rightarrow> nat list \<Rightarrow> nat" where
  "ravel (d # ds) (i # is) = i * prod_list ds + ravel ds is"
| "ravel ds is = 0"

fun unravel :: "nat list \<Rightarrow> nat \<Rightarrow> nat list" where
  "unravel [] n = []"
| "unravel (d # ds) n = ((n div prod_list ds) mod d) # unravel ds n"

definition np_size :: "ndarray \<Rightarrow> nat" where
  "np_size a = prod_list (shape a)"

definition reshape_dims :: "nat \<Rightarrow> int list \<Rightarrow> py_error + nat list" where
  "reshape_dims n dims =
     (let known = prod_list (map nat (filter (\<lambda>d. d \<noteq> - 1) dims));
          unknown = length (filter (\<lambda>d. d = - 1) dims)
      in if list_ex (\<lambda>d. d < - 1) dims then Inl (ValueError ''negative dimensions not allowed'')
         else if unknown = 0
         then (if known = n then Inr (map nat dims)
               else Inl (ValueError ''cannot reshape array''))
         else if unknown = 1
         then (if 0 < known \<and> n mod known = 0
               then Inr (map (\<lambda>d. if d = - 1 then n div known else nat d) dims)
               else Inl (ValueError ''cannot reshape array''))
         else Inl (ValueError ''can only specify one unknown dimension''))"

definition np_reshape :: "ndarray \<Rightarrow> int list \<Rightarrow> py_error + ndarray" where
  "np_reshape a dims =
     ebind (reshape_dims (np_size a) dims)
       (\<lambda>sh. Inr \<lparr>shape = sh, elems = (\<lambda>idx. elems a (unravel (shape a) (ravel sh idx))),
                  dtype = dtype a\<rparr>)"

subsection \<open>Basic indexing\<close>

text \<open>One selector per axis: a slice \<^verbatim>\<open>lo:hi\<close> (either bound may be absent) or an integer.
  Bounds and integers may be negative, as in Python.\<close>

datatype ix = Slice "int option" "int option" | Idx int

abbreviation Full :: ix where
  "Full \<equiv> Slice None None"

datatype rsel = RSlice nat nat | RIdx nat

definition py_clip :: "nat \<Rightarrow> int \<Rightarrow> nat" where
  "py_clip n b = (if b < 0 then nat (max 0 (int n + b)) else min n (nat b))"

fun resolve1 :: "nat \<Rightarrow> ix \<Rightarrow> py_error + rsel" where
  "resolve1 n (Slice lo hi) =
     (let start = (case lo of None \<Rightarrow> 0 | Some b \<Rightarrow> py_clip n b);
          stop = (case hi of None \<Rightarrow> n | Some b \<Rightarrow> py_clip n b)
      in Inr (RSlice start (stop - start)))"
| "resolve1 n (Idx i) =
     (let j = (if i < 0 then i + int n else i)
      in if 0 \<le> j \<and> j < int n then Inr (RIdx (nat j)) else Inl IndexError)"

text \<open>Selectors left out at the end select whole axes; more selectors than axes raise.\<close>

fun resolve :: "nat list \<Rightarrow> ix list \<Rightarrow> py_error + rsel list" where
  "resolve [] [] = Inr []"
| "resolve (n # ns) [] = ebind (resolve ns []) (\<lambda>rs. Inr (RSlice 0 n # rs))"
| "resolve [] (i # is) = Inl IndexError"
| "resolve (n # ns) (i # is) =
     ebind (resolve1 n i) (\<lambda>r. ebind (resolve ns is) (\<lambda>rs. Inr (r # rs)))"

fun view_shape :: "rsel list \<Rightarrow> nat list" where
  "view_shape [] = []"
| "view_shape (RSlice s l # rs) = l # view_shape rs"
| "view_shape (RIdx j # rs) = view_shape rs"

text \<open>From an index of the selected view to the index of the same element in the base
  array, and back (\<open>None\<close> for an element outside the selection).\<close>

fun to_base :: "rsel list \<Rightarrow> nat list \<Rightarrow> nat list" where
  "to_base [] vi = []"
| "to_base (RIdx j # rs) vi = j # to_base rs vi"
| "to_base (RSlice s l # rs) vi = (s + hd vi) # to_base rs (tl vi)"

fun of_base :: "rsel list \<Rightarrow> nat list \<Rightarrow> nat list option" where
  "of_base [] [] = Some []"
| "of_base (RIdx j # rs) (b # bs) = (if b = j then of_base rs bs else None)"
| "of_base (RSlice s l # rs) (b # bs) =
     (if s \<le> b \<and> b < s + l then map_option ((#) (b - s)) (of_base rs bs) else None)"
| "of_base rs bs = None"

definition getitem :: "ndarray \<Rightarrow> ix list \<Rightarrow> py_error + ndarray" where
  "getitem a ixs =
     ebind (resolve (shape a) ixs)
       (\<lambda>rs. Inr \<lparr>shape = view_shape rs, elems = (\<lambda>vi. elems a (to_base rs vi)), dtype = dtype a\<rparr>)"

subsection \<open>Broadcasting, assignment and maximum\<close>

text \<open>Assignment broadcasts the source to the selected view; leading axes of extent 1 that
  the source has in excess are dropped first.\<close>

fun strip_ones :: "nat \<Rightarrow> nat list \<Rightarrow> nat list" where
  "strip_ones n [] = []"
| "strip_ones n (d # ds) = (if n < length (d # ds) \<and> d = 1 then strip_ones n ds else d # ds)"

definition assignable :: "nat list \<Rightarrow> nat list \<Rightarrow> bool" where
  "assignable ss ts =
     (let ss' = strip_ones (length ts) ss
      in length ss' \<le> length ts \<and>
         list_all2 (\<lambda>s t. s = t \<or> s = 1) ss' (drop (length ts - length ss') ts))"

text \<open>The index in an operand of shape \<open>ss\<close> that a result index \<open>ti\<close> reads.\<close>

definition bcast_index :: "nat list \<Rightarrow> nat list \<Rightarrow> nat list" where
  "bcast_index ss ti =
     (if length ss \<le> length ti
      then map2 (\<lambda>s i. if s = 1 then 0 else i) ss (drop (length ti - length ss) ti)
      else replicate (length ss - length ti) 0 @
           map2 (\<lambda>s i. if s = 1 then 0 else i) (drop (length ss - length ti) ss) ti)"

definition setitem :: "ndarray \<Rightarrow> ix list \<Rightarrow> ndarray \<Rightarrow> py_error + ndarray" where
  "setitem a ixs src =
     ebind (resolve (shape a) ixs)
       (\<lambda>rs. if assignable (shape src) (view_shape rs)
             then Inr (a\<lparr>elems := (\<lambda>bi. case of_base rs bi of
                                          None \<Rightarrow> elems a bi
                                        | Some vi \<Rightarrow> elems src (bcast_index (shape src) vi))\<rparr>)
             else Inl (ValueError ''could not broadcast input array''))"

text \<open>The floating type of the result of an operation on two arrays.\<close>

definition promote :: "dtype \<Rightarrow> dtype \<Rightarrow> dtype" where
  "promote s t =
     (if s = Float64 \<or> t = Float64 then Float64
      else if s = Float32 \<or> t = Float32 then Float32 else Float16)"

fun bshape :: "nat list \<Rightarrow> nat list \<Rightarrow> nat list option" where
  "bshape [] ts = Some ts"
| "bshape (s # ss) [] = Some (s # ss)"
| "bshape (s # ss) (t # ts) =
     (if s = t \<or> s = 1 \<or> t = 1
      then map_option ((#) (if s = 1 then t else s)) (bshape ss ts)
      else None)"

definition broadcast_shapes :: "nat list \<Rightarrow> nat list \<Rightarrow> nat list option" where
  "broadcast_shapes ss ts = map_option rev (bshape (rev ss) (rev ts))"

definition np_maximum :: "ndarray \<Rightarrow> ndarray \<Rightarrow> py_error + ndarray" where
  "np_maximum a b =
     (case broadcast_shapes (shape a) (shape b) of
        None \<Rightarrow> Inl (ValueError ''operands could not be broadcast together'')
      | Some sh \<Rightarrow>
          Inr \<lparr>shape = sh,
               elems = (\<lambda>i. max (elems a (bcast_index (shape a) i))
                                (elems b (bcast_index (shape b) i))),
               dtype = promote (dtype a) (dtype b)\<rparr>)"

subsection \<open>Counting, stacking and the operations on what the model returned\<close>

definition indices :: "nat list \<Rightarrow> nat list list" where
  "indices sh = product_lists (map (\<lambda>d. [0..<d]) sh)"

text \<open>The Python float \<^verbatim>\<open>0.1\<close> in a comparison with an array: numpy converts the scalar to
  the floating type of the array, so the array is compared with the value of that type
  nearest to one tenth (\<open>0x2E66\<close>, \<open>0x3DCCCCCD\<close> and \<open>0x3FB999999999999A\<close>).\<close>

definition float_tenth :: "dtype \<Rightarrow> real" where
  "float_tenth t =
     (case t of
        Float16 \<Rightarrow> 819 / 8192
      | Float32 \<Rightarrow> 13421773 / 134217728
      | Float64 \<Rightarrow> 3602879701896397 / 36028797018963968)"

text \<open>\<^verbatim>\<open>np.sum(a > t)\<close>, for \<open>t\<close> already of the type of \<open>a\<close>.\<close>

definition count_above :: "ndarray \<Rightarrow> real \<Rightarrow> nat" where
  "count_above a t = length (filter (\<lambda>i. t < elems a i) (indices (shape a)))"

text \<open>\<^verbatim>\<open>np.asarray\<close> of a list of arrays, which \<^verbatim>\<open>np.transpose\<close> applies to a list.\<close>

definition np_stack :: "ndarray list \<Rightarrow> py_error + ndarray" where
  "np_stack xs =
     (case xs of
        [] \<Rightarrow> Inr \<lparr>shape = [0], elems = (\<lambda>idx. 0), dtype = Float64\<rparr>
      | x # rest \<Rightarrow>
          if list_all (\<lambda>y. shape y = shape x) rest
          then Inr \<lparr>shape = length xs # shape x, elems = (\<lambda>idx. elems (xs ! hd idx) (tl idx)),
                    dtype = fold promote (map dtype rest) (dtype x)\<rparr>
          else Inl (ValueError ''inhomogeneous shape''))"

definition py_getitem0 :: "pyval \<Rightarrow> py_error + ndarray" where
  "py_getitem0 v =
     (case v of
        Lst xs \<Rightarrow> (case xs of [] \<Rightarrow> Inl IndexError | x # rest \<Rightarrow> Inr x)
      | Arr a \<Rightarrow> getitem a [Idx 0])"

definition py_shape_last :: "pyval \<Rightarrow> py_error + int" where
  "py_shape_last v =
     (case v of
        Lst xs \<Rightarrow> Inl AttributeError
      | Arr a \<Rightarrow> (if shape a = [] then Inl IndexError else Inr (int (last (shape a)))))"

definition py_transpose :: "pyval \<Rightarrow> nat list \<Rightarrow> py_error + pyval" where
  "py_transpose v axes =
     (case v of
        Arr a \<Rightarrow> map_sum id Arr (np_transpose a axes)
      | Lst xs \<Rightarrow> map_sum id Arr (ebind (np_stack xs) (\<lambda>a. np_transpose a axes)))"

text \<open>A call of \<^verbatim>\<open>model.run\<close>: the input joins the record of calls, whether or not the
  call raises.\<close>

definition invoke :: "model \<Rightarrow> ndarray \<Rightarrow> ndarray list \<Rightarrow> (py_error + pyval) \<times> ndarray list" where
  "invoke m x calls =
     (case m x of
        None \<Rightarrow> (Inl ModelError, calls @ [x])
      | Some outs \<Rightarrow> (Inr (Lst outs), calls @ [x]))"

text \<open>A \<^verbatim>\<open>for\<close> loop whose body may call the model: it stops at the first exception.\<close>

fun for_range :: "('s \<Rightarrow> ndarray list \<Rightarrow> 'i \<Rightarrow> (py_error + 's) \<times> ndarray list) \<Rightarrow>
    'i list \<Rightarrow> 's \<Rightarrow> ndarray list \<Rightarrow> (py_error + 's) \<times> ndarray list" where
  "for_range body [] s calls = (Inr s, calls)"
| "for_range body (i # is) s calls =
     (case body s calls i of
        (Inl e, calls') \<Rightarrow> (Inl e, calls')
      | (Inr s', calls') \<Rightarrow> for_range body is s' calls')"

section \<open>Configuration and padding\<close>

text \<open>The fields of \<^verbatim>\<open>ConfigResources\<close> that the core reads. \<open>new_axial_size\<close> is a Python
  list or \<^verbatim>\<open>None\<close>.\<close>

record ConfigResources =
  new_axial_size :: "int list option"
  slicing_plane :: string
  training_slab_size :: int
  training_patch_size :: "int list"
  training_patch_offset :: "int list"
  training_nb_classes :: int
  predictions_non_overlapping :: bool
  swap_training_input :: bool
  fix_orientation :: bool
  training_deep_supervision :: bool

definition axial_at :: "ConfigResources \<Rightarrow> nat \<Rightarrow> py_error + int" where
  "axial_at parameters k =
     (case new_axial_size parameters of None \<Rightarrow> Inl TypeError | Some nas \<Rightarrow> list_at nas k)"

text \<open>Zero-filled padding of one axis: \<open>lead\<close> entries in front, \<open>trail\<close> behind.\<close>

definition pad_axis :: "ndarray \<Rightarrow> nat \<Rightarrow> nat \<Rightarrow> nat \<Rightarrow> ndarray" where
  "pad_axis a k lead trail =
     \<lparr>shape = (shape a)[k := lead + shape a ! k + trail],
      elems = (\<lambda>idx. if k < length idx \<and> lead \<le> idx ! k \<and> idx ! k < lead + shape a ! k
                      then elems a (idx[k := idx ! k - lead]) else 0),
      dtype = dtype a\<rparr>"

definition slicing_axis :: "string \<Rightarrow> nat" where
  "slicing_axis plane = (if plane = ''sagittal'' then 0 else if plane = ''coronal'' then 1 else 2)"

text \<open>Modelled from the spec: \<^verbatim>\<open>padding_for_inference\<close> of \<^verbatim>\<open>Utils/volume_utilities.py\<close>,
  which is not among the sources. The spec (4.5, tail padding): pad only the trailing end of
  the slicing axis so that the extent is divisible by \<open>slab_size\<close>; return the padded volume
  and the pad amount; zero fill. The spec says nothing for a slab size that is not positive;
  the model raises there.\<close>

definition padding_for_inference :: "ndarray \<Rightarrow> int \<Rightarrow> string \<Rightarrow> py_error + ndarray \<times> int" where
  "padding_for_inference data slab_size plane =
     (let k = slicing_axis plane
      in if slab_size \<le> 0 \<or> length (shape data) \<le> k
         then Inl (ValueError ''padding'')
         else (let n = shape data ! k;
                   missing = (nat slab_size - n mod nat slab_size) mod nat slab_size
               in Inr (pad_axis data k 0 missing, int missing)))"

text \<open>Modelled from the spec: \<^verbatim>\<open>padding_for_inference_both_ends\<close> of
  \<^verbatim>\<open>Utils/volume_utilities.py\<close>, which is not among the sources. The spec (4.5, both-ends
  padding for slabs): pad \<open>slab_size/2\<close> on both ends of the slicing axis; zero fill.\<close>

definition padding_for_inference_both_ends :: "ndarray \<Rightarrow> int \<Rightarrow> string \<Rightarrow> py_error + ndarray" where
  "padding_for_inference_both_ends data slab_size plane =
     (let k = slicing_axis plane; padding_val = py_int_half slab_size
      in if padding_val < 0 \<or> length (shape data) \<le> k
         then Inl (ValueError ''padding'')
         else Inr (pad_axis data k (nat padding_val) (nat padding_val)))"

text \<open>Modelled from the spec: \<^verbatim>\<open>padding_for_inference_both_ends_patchwise\<close> of
  \<^verbatim>\<open>Utils/volume_utilities.py\<close>, which is not among the sources. The spec (4.4, 4.5): pad
  the three spatial axes symmetrically, as needed, so that each is at least
  \<open>patch_size[axis]\<close>; return the padded volume and the six pad amounts (leading and trailing
  per axis); zero fill. An odd deficit puts the extra entry behind.\<close>

definition padding_for_inference_both_ends_patchwise ::
    "ndarray \<Rightarrow> int list \<Rightarrow> py_error + ndarray \<times> (int \<times> int \<times> int \<times> int \<times> int \<times> int)" where
  "padding_for_inference_both_ends_patchwise data patch_size =
     (if length (shape data) < 3 \<or> length patch_size < 3 then Inl IndexError
      else (let d0 = nat (patch_size ! 0 - int (shape data ! 0));
                d1 = nat (patch_size ! 1 - int (shape data ! 1));
                d2 = nat (patch_size ! 2 - int (shape data ! 2))
            in Inr (pad_axis (pad_axis (pad_axis data 0 (d0 div 2) (d0 - d0 div 2))
                                1 (d1 div 2) (d1 - d1 div 2))
                       2 (d2 div 2) (d2 - d2 div 2),
                     (int (d0 div 2), int (d0 - d0 div 2), int (d1 div 2), int (d1 - d1 div 2),
                      int (d2 div 2), int (d2 - d2 div 2)))))"

section \<open>Whole-volume strategy\<close>

definition whole_msg :: string where
  "whole_msg = ''Segmentation inference (whole mode) could not fully proceed.''"

text \<open>\<^verbatim>\<open>__run_predictions_whole\<close>. The result is the outcome together with the record of the
  calls of the model. The final \<^verbatim>\<open>predictions[0][0]\<close> stands after the \<^verbatim>\<open>try\<close> block.\<close>

definition run_predictions_whole ::
    "model \<Rightarrow> ndarray \<Rightarrow> bool \<Rightarrow> (py_error + ndarray) \<times> ndarray list" where
  "run_predictions_whole m data deep_supervision =
     (let data_prep = expand_dims_last (expand_dims_first data)
      in case invoke m data_prep [] of
           (Inl e, calls) \<Rightarrow> (Inl (ValueError whole_msg), calls)
         | (Inr predictions, calls) \<Rightarrow>
             (ebind (py_getitem0 predictions) (\<lambda>p. getitem p [Idx 0]), calls))"

section \<open>Slab strategy\<close>

definition slab_msg :: string where
  "slab_msg = ''Segmentation inference (slab mode) could not fully proceed.''"

text \<open>The slab between \<open>lo\<close> and \<open>hi\<close> along the slicing axis, with that axis moved last
  (the three branches on \<^verbatim>\<open>slicing_plane\<close>; no branch leaves \<^verbatim>\<open>slab_CT\<close> unbound).\<close>

definition extract_slab :: "string \<Rightarrow> ndarray \<Rightarrow> int \<Rightarrow> int \<Rightarrow> py_error + ndarray" where
  "extract_slab plane data lo hi =
     (if plane = ''axial'' then getitem data [Full, Full, Slice (Some lo) (Some hi), Idx 0]
      else if plane = ''sagittal''
      then ebind (getitem data [Slice (Some lo) (Some hi), Full, Full, Idx 0])
             (\<lambda>tmp. np_transpose tmp [1, 2, 0])
      else if plane = ''coronal''
      then ebind (getitem data [Full, Slice (Some lo) (Some hi), Full, Idx 0])
             (\<lambda>tmp. np_transpose tmp [0, 2, 1])
      else Inl NameError)"

text \<open>After the call: the \<^verbatim>\<open>[0]\<close> of deep supervision, then the inverse orientation.\<close>

definition unwrap_pred :: "bool \<Rightarrow> bool \<Rightarrow> pyval \<Rightarrow> py_error + pyval" where
  "unwrap_pred deep_supervision fix pred =
     ebind (if deep_supervision then map_sum id Arr (py_getitem0 pred) else Inr pred)
       (\<lambda>p. if fix then py_transpose p [0, 2, 3, 1, 4] else Inr p)"

subsection \<open>Non-overlapping chunks\<close>

definition write_chunk ::
    "string \<Rightarrow> int \<Rightarrow> int \<Rightarrow> int \<Rightarrow> bool \<Rightarrow> pyval \<Rightarrow> ndarray \<Rightarrow> int \<Rightarrow> py_error + ndarray" where
  "write_chunk plane slab_size pad_value chunk unpad pred final_result c =
     (let lo = Some (chunk * slab_size);
          hi = (if unpad then None else Some ((chunk + 1) * slab_size));
          keep = Some (if unpad then slab_size - pad_value else slab_size);
          rhs = ebind (py_getitem0 pred) (\<lambda>p0. getitem p0 [Full, Full, Slice None keep, Idx c])
      in if plane = ''axial''
         then ebind rhs (\<lambda>src. setitem final_result [Full, Full, Slice lo hi, Idx c] src)
         else if plane = ''sagittal''
         then ebind rhs (\<lambda>src. ebind (np_transpose src [2, 0, 1])
                (\<lambda>t. setitem final_result [Slice lo hi, Full, Full, Idx c] t))
         else if plane = ''coronal''
         then ebind rhs (\<lambda>src. ebind (np_transpose src [0, 2, 1])
                (\<lambda>t. setitem final_result [Full, Slice lo hi, Full, Idx c] t))
         else Inr final_result)"

text \<open>One iteration of the loop over the chunks. The loop state is \<^verbatim>\<open>final_result\<close> and the
  flag \<^verbatim>\<open>unpad\<close>, which once set stays set.\<close>

definition chunk_body ::
    "model \<Rightarrow> ConfigResources \<Rightarrow> bool \<Rightarrow> ndarray \<Rightarrow> int \<Rightarrow> int \<Rightarrow>
     ndarray \<times> bool \<Rightarrow> ndarray list \<Rightarrow> int \<Rightarrow> (py_error + ndarray \<times> bool) \<times> ndarray list" where
  "chunk_body m parameters deep_supervision data pad_value scale st calls chunk =
     (let plane = slicing_plane parameters;
          slab_size = training_slab_size parameters;
          final_result = fst st;
          unpad = (snd st \<or> (chunk = scale - 1 \<and> pad_value \<noteq> 0))
      in case ebind (extract_slab plane data (chunk * slab_size) ((chunk + 1) * slab_size))
                (\<lambda>slab_CT. if fix_orientation parameters
                            then np_transpose (expand_dims_last (expand_dims_first slab_CT))
                                   [0, 3, 1, 2, 4]
                            else Inr (expand_dims_last (expand_dims_first slab_CT))) of
           Inl e \<Rightarrow> (Inl e, calls)
         | Inr slab_CT \<Rightarrow>
             (case invoke m slab_CT calls of
                (Inl e, calls') \<Rightarrow> (Inl e, calls')
              | (Inr slab_CT_pred, calls') \<Rightarrow>
                  (ebind (unwrap_pred deep_supervision (fix_orientation parameters) slab_CT_pred)
                     (\<lambda>pred. ebind (py_shape_last pred)
                        (\<lambda>n. ebind (efold (write_chunk plane slab_size pad_value chunk unpad pred)
                                       (py_range 0 n) final_result)
                               (\<lambda>fr. Inr (fr, unpad)))),
                   calls')))"

definition slab_non_overlapping ::
    "model \<Rightarrow> ConfigResources \<Rightarrow> bool \<Rightarrow> ndarray \<Rightarrow> int \<Rightarrow> ndarray \<Rightarrow>
     (py_error + ndarray) \<times> ndarray list" where
  "slab_non_overlapping m parameters deep_supervision data upper_boundary final_result =
     (let slab_size = training_slab_size parameters
      in case ebind (padding_for_inference data slab_size (slicing_plane parameters))
                (\<lambda>padded. ebind (py_ceil_div upper_boundary slab_size)
                   (\<lambda>scale. Inr (padded, scale))) of
           Inl e \<Rightarrow> (Inl e, [])
         | Inr ((data', pad_value), scale) \<Rightarrow>
             (case for_range (chunk_body m parameters deep_supervision data' pad_value scale)
                     (py_range 0 scale) (final_result, False) [] of
                (Inl e, calls) \<Rightarrow> (Inl e, calls)
              | (Inr st, calls) \<Rightarrow> (Inr (fst st), calls)))"

subsection \<open>Sliding window, slab size 1\<close>

definition slab_single_write :: "pyval \<Rightarrow> int \<Rightarrow> ndarray \<Rightarrow> int \<Rightarrow> py_error + ndarray" where
  "slab_single_write pred slice final_result c =
     (case pred of
        Lst xs \<Rightarrow> Inl TypeError
      | Arr a \<Rightarrow> ebind (getitem a [Full, Full, Idx c])
                  (\<lambda>src. setitem final_result [Full, Full, Idx slice, Idx c] src))"

definition slab_single_body ::
    "model \<Rightarrow> ConfigResources \<Rightarrow> bool \<Rightarrow> ndarray \<Rightarrow>
     ndarray \<Rightarrow> ndarray list \<Rightarrow> int \<Rightarrow> (py_error + ndarray) \<times> ndarray list" where
  "slab_single_body m parameters deep_supervision data final_result calls slice =
     (case getitem data [Full, Full, Idx slice, Idx 0] of
        Inl e \<Rightarrow> (Inl e, calls)
      | Inr slab_CT \<Rightarrow>
          if count_above slab_CT (float_tenth (dtype slab_CT)) = 0 then (Inr final_result, calls)
          else (case ebind (axial_at parameters 0)
                       (\<lambda>n0. ebind (axial_at parameters 1)
                          (\<lambda>n1. np_reshape slab_CT [1, n0, n1, 1])) of
                  Inl e \<Rightarrow> (Inl e, calls)
                | Inr model_input \<Rightarrow>
                    (case invoke m model_input calls of
                       (Inl e, calls') \<Rightarrow> (Inl e, calls')
                     | (Inr slab_CT_pred, calls') \<Rightarrow>
                         (ebind (if deep_supervision
                                 then map_sum id Arr (py_getitem0 slab_CT_pred)
                                 else Inr slab_CT_pred)
                            (\<lambda>pred. ebind (py_shape_last pred)
                               (\<lambda>n. efold (slab_single_write pred slice) (py_range 0 n)
                                      final_result)),
                          calls'))))"

definition slab_sliding_single ::
    "model \<Rightarrow> ConfigResources \<Rightarrow> bool \<Rightarrow> ndarray \<Rightarrow> ndarray \<Rightarrow>
     (py_error + ndarray) \<times> ndarray list" where
  "slab_sliding_single m parameters deep_supervision data final_result =
     (case list_at (shape data) 2 of
        Inl e \<Rightarrow> (Inl e, [])
      | Inr n \<Rightarrow> for_range (slab_single_body m parameters deep_supervision data)
                  (py_range 0 (int n)) final_result [])"

subsection \<open>Sliding window, thicker slabs\<close>

definition slab_window_write ::
    "string \<Rightarrow> int \<Rightarrow> pyval \<Rightarrow> int \<Rightarrow> ndarray \<Rightarrow> int \<Rightarrow> py_error + ndarray" where
  "slab_window_write plane half_slab_size pred slice final_result c =
     (let rhs = ebind (py_getitem0 pred)
                  (\<lambda>p0. getitem p0 [Full, Full, Idx half_slab_size, Idx c])
      in if plane = ''axial''
         then ebind rhs (\<lambda>src. setitem final_result
                                  [Full, Full, Idx (slice - half_slab_size), Idx c] src)
         else if plane = ''sagittal''
         then ebind rhs (\<lambda>src. setitem final_result [Idx slice, Full, Full, Idx c] src)
         else if plane = ''coronal''
         then ebind rhs (\<lambda>src. setitem final_result [Full, Idx slice, Full, Idx c] src)
         else Inr final_result)"

definition slab_window_body ::
    "model \<Rightarrow> ConfigResources \<Rightarrow> bool \<Rightarrow> ndarray \<Rightarrow> int \<Rightarrow>
     ndarray \<Rightarrow> ndarray list \<Rightarrow> int \<Rightarrow> (py_error + ndarray) \<times> ndarray list" where
  "slab_window_body m parameters deep_supervision data half_slab_size final_result calls slice =
     (let plane = slicing_plane parameters; slab_size = training_slab_size parameters
      in case ebind (extract_slab plane data (slice - half_slab_size) (slice + half_slab_size))
                (\<lambda>slab_CT. ebind (axial_at parameters 0)
                   (\<lambda>n0. ebind (axial_at parameters 1)
                      (\<lambda>n1. np_reshape slab_CT [1, n0, n1, slab_size, 1]))) of
           Inl e \<Rightarrow> (Inl e, calls)
         | Inr slab_CT \<Rightarrow>
             if count_above slab_CT (float_tenth (dtype slab_CT)) = 0 then (Inr final_result, calls)
             else (case (if fix_orientation parameters
                         then np_transpose slab_CT [0, 3, 1, 2, 4] else Inr slab_CT) of
                     Inl e \<Rightarrow> (Inl e, calls)
                   | Inr model_input \<Rightarrow>
                       (case invoke m model_input calls of
                          (Inl e, calls') \<Rightarrow> (Inl e, calls')
                        | (Inr slab_CT_pred, calls') \<Rightarrow>
                            (ebind (unwrap_pred deep_supervision (fix_orientation parameters)
                                      slab_CT_pred)
                               (\<lambda>pred. ebind (py_shape_last pred)
                                  (\<lambda>n. efold (slab_window_write plane half_slab_size pred slice)
                                         (py_range 0 n) final_result)),
                             calls'))))"

definition slab_sliding_window ::
    "model \<Rightarrow> ConfigResources \<Rightarrow> bool \<Rightarrow> ndarray \<Rightarrow> int \<Rightarrow> ndarray \<Rightarrow>
     (py_error + ndarray) \<times> ndarray list" where
  "slab_sliding_window m parameters deep_supervision data upper_boundary final_result =
     (let slab_size = training_slab_size parameters
      in case padding_for_inference_both_ends data slab_size (slicing_plane parameters) of
           Inl e \<Rightarrow> (Inl e, [])
         | Inr data' \<Rightarrow>
             for_range (slab_window_body m parameters deep_supervision data'
                          (py_int_half slab_size))
               (py_range (py_int_half slab_size) upper_boundary) final_result [])"

subsection \<open>The strategy\<close>

text \<open>The swap writes into the list that \<^verbatim>\<open>parameters.new_axial_size\<close> names: the local
  variable is a reference to it, and only \<^verbatim>\<open>tmp\<close> is a copy. The configuration after the
  swap is therefore part of what the function returns.\<close>

definition swap_axial :: "ConfigResources \<Rightarrow> py_error + ConfigResources" where
  "swap_axial parameters =
     (if swap_training_input parameters
      then (case new_axial_size parameters of
              None \<Rightarrow> Inl TypeError
            | Some nas \<Rightarrow>
                if length nas < 2 then Inl IndexError
                else Inr (parameters\<lparr>new_axial_size := Some (nas[0 := nas ! 1, 1 := nas ! 0])\<rparr>))
      else Inr parameters)"

text \<open>The body of the \<^verbatim>\<open>try\<close> block after the swap.\<close>

definition slabbed_try ::
    "model \<Rightarrow> ndarray \<Rightarrow> ConfigResources \<Rightarrow> bool \<Rightarrow> (py_error + ndarray) \<times> ndarray list" where
  "slabbed_try m data parameters deep_supervision =
     (let plane = slicing_plane parameters
      in case ebind (list_at (shape data) 2)
                (\<lambda>axial_extent.
                   ebind (if plane = ''sagittal'' then list_at (shape data) 0
                          else if plane = ''coronal'' then list_at (shape data) 1
                          else Inr axial_extent)
                     (\<lambda>upper_boundary.
                        ebind (np_zeros (map int (shape data) @ [training_nb_classes parameters]))
                          (\<lambda>final_result. Inr (int upper_boundary, final_result)))) of
           Inl e \<Rightarrow> (Inl e, [])
         | Inr (upper_boundary, final_result) \<Rightarrow>
             if predictions_non_overlapping parameters
             then slab_non_overlapping m parameters deep_supervision (expand_dims_last data)
                    upper_boundary final_result
             else if training_slab_size parameters = 1
             then slab_sliding_single m parameters deep_supervision (expand_dims_last data)
                    final_result
             else slab_sliding_window m parameters deep_supervision (expand_dims_last data)
                    upper_boundary final_result)"

text \<open>\<^verbatim>\<open>__run_predictions_slabbed\<close>: outcome, calls of the model, and the configuration
  as the call leaves it.\<close>

definition run_predictions_slabbed ::
    "model \<Rightarrow> ndarray \<Rightarrow> ConfigResources \<Rightarrow> bool \<Rightarrow>
     ((py_error + ndarray) \<times> ndarray list) \<times> ConfigResources" where
  "run_predictions_slabbed m data parameters deep_supervision =
     (case swap_axial parameters of
        Inl e \<Rightarrow> ((Inl (ValueError slab_msg), []), parameters)
      | Inr parameters' \<Rightarrow>
          (case slabbed_try m data parameters' deep_supervision of
             (Inl e, calls) \<Rightarrow> ((Inl (ValueError slab_msg), calls), parameters')
           | (Inr final_result, calls) \<Rightarrow> ((Inr final_result, calls), parameters')))"

section \<open>Patch strategy\<close>

definition patch_msg :: string where
  "patch_msg = ''Segmentation inference (patch mode) could not fully proceed.''"

text \<open>The bounds of the patch with grid index \<open>i\<close> along one axis (the source repeats the
  block for x, y and z): \<open>None\<close> is the \<^verbatim>\<open>continue\<close>.\<close>

definition patch_bounds :: "int \<Rightarrow> int \<Rightarrow> int \<Rightarrow> int \<Rightarrow> (int \<times> int) option" where
  "patch_bounds i psize offset extent =
     (let lo = i * (psize - offset); hi = i * (psize - offset) + psize
      in if hi \<ge> extent
         then (let diff = \<bar>extent - hi\<bar>
               in if lo - diff < 0 then None else Some (lo - diff, hi - diff))
         else Some (lo, hi))"

definition axis_bounds ::
    "ndarray \<Rightarrow> int list \<Rightarrow> int list \<Rightarrow> nat \<Rightarrow> int \<Rightarrow> py_error + (int \<times> int) option" where
  "axis_bounds data patch_size patch_offset k i =
     ebind (list_at patch_size k)
       (\<lambda>p. ebind (list_at patch_offset k)
          (\<lambda>off. ebind (list_at (shape data) k)
             (\<lambda>n. Inr (patch_bounds i p off (int n)))))"

text \<open>\<^verbatim>\<open>range(0, int(np.ceil(data.shape[k] / (patch_size[k] - patch_offset[k]))))\<close>.\<close>

definition grid_range :: "ndarray \<Rightarrow> int list \<Rightarrow> int list \<Rightarrow> nat \<Rightarrow> py_error + int list" where
  "grid_range data patch_size patch_offset k =
     ebind (list_at (shape data) k)
       (\<lambda>n. ebind (list_at patch_size k)
          (\<lambda>p. ebind (list_at patch_offset k)
             (\<lambda>off. ebind (py_ceil_div (int n) (p - off))
                (\<lambda>steps. Inr (py_range 0 steps)))))"

definition patch_selector :: "int \<times> int \<Rightarrow> int \<times> int \<Rightarrow> int \<times> int \<Rightarrow> ix list" where
  "patch_selector bx by bz =
     [Slice (Some (fst bx)) (Some (snd bx)), Slice (Some (fst by)) (Some (snd by)),
      Slice (Some (fst bz)) (Some (snd bz))]"

text \<open>The patch that passed the three checks: extract, call, and combine by maximum.\<close>

definition patch_apply ::
    "model \<Rightarrow> ndarray \<Rightarrow> bool \<Rightarrow> int \<times> int \<Rightarrow> int \<times> int \<Rightarrow> int \<times> int \<Rightarrow>
     ndarray \<Rightarrow> ndarray list \<Rightarrow> (py_error + ndarray) \<times> ndarray list" where
  "patch_apply m data deep_supervision bx by bz final_result calls =
     (case getitem data (patch_selector bx by bz) of
        Inl e \<Rightarrow> (Inl e, calls)
      | Inr patch \<Rightarrow>
          (case invoke m (expand_dims_first patch) calls of
             (Inl e, calls') \<Rightarrow> (Inl e, calls')
           | (Inr patch_pred, calls') \<Rightarrow>
               (ebind (if deep_supervision then map_sum id Arr (py_getitem0 patch_pred)
                       else Inr patch_pred)
                  (\<lambda>pred. ebind (py_getitem0 pred)
                     (\<lambda>p0. ebind (getitem final_result (patch_selector bx by bz @ [Full]))
                        (\<lambda>current. ebind (np_maximum p0 current)
                           (\<lambda>combined. setitem final_result (patch_selector bx by bz @ [Full])
                                          combined)))),
                calls')))"

definition patch_body ::
    "model \<Rightarrow> ndarray \<Rightarrow> int list \<Rightarrow> int list \<Rightarrow> bool \<Rightarrow> int \<Rightarrow> int \<Rightarrow>
     ndarray \<Rightarrow> ndarray list \<Rightarrow> int \<Rightarrow> (py_error + ndarray) \<times> ndarray list" where
  "patch_body m data patch_size patch_offset deep_supervision x y final_result calls z =
     (case axis_bounds data patch_size patch_offset 0 x of
        Inl e \<Rightarrow> (Inl e, calls)
      | Inr None \<Rightarrow> (Inr final_result, calls)
      | Inr (Some bx) \<Rightarrow>
          (case axis_bounds data patch_size patch_offset 1 y of
             Inl e \<Rightarrow> (Inl e, calls)
           | Inr None \<Rightarrow> (Inr final_result, calls)
           | Inr (Some by) \<Rightarrow>
               (case axis_bounds data patch_size patch_offset 2 z of
                  Inl e \<Rightarrow> (Inl e, calls)
                | Inr None \<Rightarrow> (Inr final_result, calls)
                | Inr (Some bz) \<Rightarrow>
                    patch_apply m data deep_supervision bx by bz final_result calls)))"

definition patch_loop_y ::
    "model \<Rightarrow> ndarray \<Rightarrow> int list \<Rightarrow> int list \<Rightarrow> bool \<Rightarrow> int \<Rightarrow>
     ndarray \<Rightarrow> ndarray list \<Rightarrow> int \<Rightarrow> (py_error + ndarray) \<times> ndarray list" where
  "patch_loop_y m data patch_size patch_offset deep_supervision x final_result calls y =
     (case grid_range data patch_size patch_offset 2 of
        Inl e \<Rightarrow> (Inl e, calls)
      | Inr zs \<Rightarrow> for_range (patch_body m data patch_size patch_offset deep_supervision x y)
                   zs final_result calls)"

definition patch_loop_x ::
    "model \<Rightarrow> ndarray \<Rightarrow> int list \<Rightarrow> int list \<Rightarrow> bool \<Rightarrow>
     ndarray \<Rightarrow> ndarray list \<Rightarrow> int \<Rightarrow> (py_error + ndarray) \<times> ndarray list" where
  "patch_loop_x m data patch_size patch_offset deep_supervision final_result calls x =
     (case grid_range data patch_size patch_offset 1 of
        Inl e \<Rightarrow> (Inl e, calls)
      | Inr ys \<Rightarrow> for_range (patch_loop_y m data patch_size patch_offset deep_supervision x)
                   ys final_result calls)"

text \<open>The last statement of the \<^verbatim>\<open>try\<close> block: the padding is cut off again.\<close>

definition strip_padding ::
    "ndarray \<Rightarrow> int \<times> int \<times> int \<times> int \<times> int \<times> int \<Rightarrow> py_error + ndarray" where
  "strip_padding final_result extra_dims =
     (case extra_dims of
        (e0, e1, e2, e3, e4, e5) \<Rightarrow>
          ebind (list_at (shape final_result) 0)
            (\<lambda>n0. ebind (list_at (shape final_result) 1)
               (\<lambda>n1. ebind (list_at (shape final_result) 2)
                  (\<lambda>n2. getitem final_result
                          [Slice (Some e0) (Some (int n0 - e1)),
                           Slice (Some e2) (Some (int n1 - e3)),
                           Slice (Some e4) (Some (int n2 - e5)), Full]))))"

definition patch_try ::
    "model \<Rightarrow> ndarray \<Rightarrow> ConfigResources \<Rightarrow> bool \<Rightarrow> (py_error + ndarray) \<times> ndarray list" where
  "patch_try m data parameters deep_supervision =
     (let patch_size = training_patch_size parameters;
          patch_offset = training_patch_offset parameters
      in case ebind (padding_for_inference_both_ends_patchwise data patch_size)
                (\<lambda>padded. ebind (np_zeros (map int (shape (fst padded)) @
                                           [training_nb_classes parameters]))
                   (\<lambda>final_result.
                      ebind (grid_range (expand_dims_last (fst padded)) patch_size patch_offset 0)
                        (\<lambda>xs. Inr (padded, final_result, xs)))) of
           Inl e \<Rightarrow> (Inl e, [])
         | Inr ((data', extra_dims), final_result, xs) \<Rightarrow>
             (case for_range (patch_loop_x m (expand_dims_last data') patch_size patch_offset
                                deep_supervision) xs final_result [] of
                (Inl e, calls) \<Rightarrow> (Inl e, calls)
              | (Inr final_result', calls) \<Rightarrow> (strip_padding final_result' extra_dims, calls)))"

text \<open>\<^verbatim>\<open>__run_predictions_patch\<close>.\<close>

definition run_predictions_patch ::
    "model \<Rightarrow> ndarray \<Rightarrow> ConfigResources \<Rightarrow> bool \<Rightarrow> (py_error + ndarray) \<times> ndarray list" where
  "run_predictions_patch m data parameters deep_supervision =
     (case patch_try m data parameters deep_supervision of
        (Inl e, calls) \<Rightarrow> (Inl (ValueError patch_msg), calls)
      | (Inr final_result, calls) \<Rightarrow> (Inr final_result, calls))"

section \<open>Mode selection\<close>

text \<open>\<^verbatim>\<open>run_predictions\<close>, from the loaded session on (loading the session and reading the
  names of its outputs are input and output of the caller's side). A Python list is true
  when it is not empty, which a list of length 3 or 2 is.\<close>

definition run_predictions ::
    "model \<Rightarrow> ndarray \<Rightarrow> ConfigResources \<Rightarrow>
     ((py_error + ndarray) \<times> ndarray list) \<times> ConfigResources" where
  "run_predictions m data parameters =
     (case new_axial_size parameters of
        None \<Rightarrow> (run_predictions_patch m data parameters (training_deep_supervision parameters),
                 parameters)
      | Some nas \<Rightarrow>
          if length nas = 3
          then (run_predictions_whole m data (training_deep_supervision parameters), parameters)
          else if length nas = 2
          then run_predictions_slabbed m data parameters (training_deep_supervision parameters)
          else (run_predictions_patch m data parameters (training_deep_supervision parameters),
                parameters))"

section \<open>Patch positions and predictions\<close>

text \<open>Notions for stating what the patch strategy computes. A position is the three pairs
  of bounds of a patch. \<open>covers\<close>: the voxel lies inside the patch. \<open>patch_prediction\<close>:
  the value the model predicted for a voxel and a class in its call on the patch at a
  position (first output, first batch element, coordinates relative to the patch).
  \<open>axis_positions\<close>: the bounds the grid of one axis yields, skipped indices left out, in
  the order of the loop; \<open>patch_positions\<close>: the positions the three nested loops process,
  in their order. \<open>patch_sweep\<close>: the patches of a list of positions extracted, predicted
  and combined one after the other, which is what the nested loops do with
  \<open>patch_positions\<close>, and what any other order of processing does with its own list.\<close>

type_synonym position = "(int \<times> int) \<times> (int \<times> int) \<times> (int \<times> int)"

definition covers :: "position \<Rightarrow> nat \<Rightarrow> nat \<Rightarrow> nat \<Rightarrow> bool" where
  "covers b x y z =
     (case b of (bx, by, bz) \<Rightarrow>
        fst bx \<le> int x \<and> int x < snd bx \<and> fst by \<le> int y \<and> int y < snd by \<and>
        fst bz \<le> int z \<and> int z < snd bz)"

definition patch_prediction :: "model \<Rightarrow> ndarray \<Rightarrow> position \<Rightarrow> nat \<Rightarrow> nat \<Rightarrow> nat \<Rightarrow> nat \<Rightarrow> real" where
  "patch_prediction m d b x y z c =
     (case b of (bx, by, bz) \<Rightarrow>
        (case getitem d (patch_selector bx by bz) of
           Inl e \<Rightarrow> 0
         | Inr patch \<Rightarrow>
             (case m (expand_dims_first patch) of
                None \<Rightarrow> 0
              | Some outs \<Rightarrow>
                  (case outs of
                     [] \<Rightarrow> 0
                   | out # rest \<Rightarrow>
                       elems out [0, x - nat (fst bx), y - nat (fst by), z - nat (fst bz), c]))))"

definition axis_positions :: "ndarray \<Rightarrow> int list \<Rightarrow> int list \<Rightarrow> nat \<Rightarrow> (int \<times> int) list" where
  "axis_positions d patch_size patch_offset k =
     (case grid_range d patch_size patch_offset k of
        Inl e \<Rightarrow> []
      | Inr grid \<Rightarrow>
          concat (map (\<lambda>i. case axis_bounds d patch_size patch_offset k i of
                              Inl e \<Rightarrow> []
                            | Inr None \<Rightarrow> []
                            | Inr (Some b) \<Rightarrow> [b]) grid))"

definition patch_positions :: "ndarray \<Rightarrow> int list \<Rightarrow> int list \<Rightarrow> position list" where
  "patch_positions d patch_size patch_offset =
     List.product (axis_positions d patch_size patch_offset 0)
       (List.product (axis_positions d patch_size patch_offset 1)
          (axis_positions d patch_size patch_offset 2))"

definition patch_sweep ::
    "model \<Rightarrow> ndarray \<Rightarrow> bool \<Rightarrow> position list \<Rightarrow> ndarray \<Rightarrow> ndarray list \<Rightarrow>
     (py_error + ndarray) \<times> ndarray list" where
  "patch_sweep m d deep_supervision positions final_result calls =
     for_range (\<lambda>fr cs b. patch_apply m d deep_supervision (fst b) (fst (snd b)) (snd (snd b)) fr cs)
       positions final_result calls"

text \<open>Bounds of a patch of extent \<open>p\<close> that lie inside an axis of extent \<open>n\<close>.\<close>

definition fits :: "nat \<Rightarrow> nat \<Rightarrow> int \<times> int \<Rightarrow> bool" where
  "fits p n b = (\<exists>l. b = (int l, int l + int p) \<and> l + p \<le> n)"

text \<open>\<^verbatim>\<open>np.expand_dims(data[bx[0]:bx[1], by[0]:by[1], bz[0]:bz[1]], axis=0)\<close>: the input of
  the model for the patch at a position.\<close>

definition patch_input :: "ndarray \<Rightarrow> position \<Rightarrow> py_error + ndarray" where
  "patch_input d b =
     (case b of (bx, by, bz) \<Rightarrow> map_sum id expand_dims_first (getitem d (patch_selector bx by bz)))"

text \<open>The grid as the spec words it (4.4), to be compared with what the loops do. Along an
  axis of extent \<open>n\<close>, with patches of extent \<open>p\<close> and offset \<open>off\<close>: the stride is \<open>p - off\<close>
  and the grid has \<open>ceil(n / stride)\<close> indices; the candidate patch of index \<open>i\<close> starts at
  \<open>i * stride\<close>; if its upper bound would exceed the extent, the patch is shifted back by the
  overflow, so that it ends at the far edge; if the shifted patch would start below 0, the
  index is skipped. A position of the volume is kept when none of its three indices is
  skipped.\<close>

definition spec_axis_positions :: "int \<Rightarrow> int \<Rightarrow> int \<Rightarrow> (int \<times> int) list" where
  "spec_axis_positions p off n =
     concat (map (\<lambda>i. let lo = i * (p - off); hi = lo + p; overflow = hi - n
                      in if 0 < overflow
                         then (if lo - overflow < 0 then [] else [(lo - overflow, hi - overflow)])
                         else [(lo, hi)])
               (py_range 0 \<lceil>real_of_int n / real_of_int (p - off)\<rceil>))"

definition spec_patch_positions :: "nat list \<Rightarrow> int list \<Rightarrow> int list \<Rightarrow> position list" where
  "spec_patch_positions extents patch_size patch_offset =
     List.product
       (spec_axis_positions (patch_size ! 0) (patch_offset ! 0) (int (extents ! 0)))
       (List.product
          (spec_axis_positions (patch_size ! 1) (patch_offset ! 1) (int (extents ! 1)))
          (spec_axis_positions (patch_size ! 2) (patch_offset ! 2) (int (extents ! 2))))"

section \<open>Concrete inputs\<close>

text \<open>Small volumes, models and configurations on which the strategies are run below.
  \<open>flat\<close> lists the elements of an array in row-major order.\<close>

definition flat :: "ndarray \<Rightarrow> real list" where
  "flat a = map (elems a) (indices (shape a))"

definition observed :: "py_error + ndarray \<Rightarrow> py_error + nat list \<times> real list" where
  "observed r = map_sum id (\<lambda>a. (shape a, flat a)) r"

text \<open>A model that hands its input back, and one that answers a constant everywhere.\<close>

definition identity_model :: model where
  "identity_model x = Some [x]"

definition constant_model :: "real \<Rightarrow> model" where
  "constant_model v x = Some [\<lparr>shape = shape x, elems = (\<lambda>idx. v), dtype = Float32\<rparr>]"

text \<open>A volume whose intensity is 1, 2, 3, ... along axis \<open>k\<close>: no slice of it is empty.\<close>

definition ramp_volume :: "nat \<Rightarrow> nat list \<Rightarrow> ndarray" where
  "ramp_volume k sh = \<lparr>shape = sh, elems = (\<lambda>idx. 1 + real (idx ! k)), dtype = Float32\<rparr>"

definition slab_config :: "string \<Rightarrow> int \<Rightarrow> int list \<Rightarrow> ConfigResources" where
  "slab_config plane slab_size axial =
     \<lparr>new_axial_size = Some axial, slicing_plane = plane, training_slab_size = slab_size,
      training_patch_size = [], training_patch_offset = [], training_nb_classes = 1,
      predictions_non_overlapping = False, swap_training_input = False,
      fix_orientation = False, training_deep_supervision = True\<rparr>"

definition patch_config :: "int list \<Rightarrow> int list \<Rightarrow> int \<Rightarrow> ConfigResources" where
  "patch_config psize poffset classes =
     \<lparr>new_axial_size = None, slicing_plane = ''axial'', training_slab_size = 1,
      training_patch_size = psize, training_patch_offset = poffset,
      training_nb_classes = classes,
      predictions_non_overlapping = False, swap_training_input = False,
      fix_orientation = False, training_deep_supervision = True\<rparr>"

text \<open>A model that raises on the inputs that hold \<open>v\<close> at index (0, 0, 0, 1, 0) and hands
  the other inputs back.\<close>

definition picky_model :: "real \<Rightarrow> model" where
  "picky_model v x = (if elems x [0, 0, 0, 1, 0] = v then None else Some [x])"

text \<open>A volume whose first \<open>n\<close> slices along axis \<open>k\<close> have intensity 1 and whose other
  slices are empty.\<close>

definition lit_volume :: "nat \<Rightarrow> nat \<Rightarrow> nat list \<Rightarrow> ndarray" where
  "lit_volume k n sh = \<lparr>shape = sh, elems = (\<lambda>idx. if idx ! k < n then 1 else 0),
                       dtype = Float32\<rparr>"

text \<open>A model that hands the elements of its input back under the shape \<open>sh\<close>.\<close>

definition relabel_model :: "nat list \<Rightarrow> model" where
  "relabel_model sh x = Some [\<lparr>shape = sh, elems = elems x, dtype = dtype x\<rparr>]"

section \<open>Basic facts\<close>

lemma ebind_Inr: "ebind m f = Inr y \<longleftrightarrow> (\<exists>x. m = Inr x \<and> f x = Inr y)"
  by (cases m) (simp_all add: ebind_def)

lemma ebind_simps [simp]: "ebind (Inl e) f = Inl e" "ebind (Inr x) f = f x"
  by (simp_all add: ebind_def)

lemma efold_inv:
  assumes step: "\<And>s i s'. P s \<Longrightarrow> f s i = Inr s' \<Longrightarrow> P s'"
  shows "P s \<Longrightarrow> efold f xs s = Inr s' \<Longrightarrow> P s'"
proof (induction xs arbitrary: s)
  case Nil
  then show ?case by simp
next
  case (Cons i xs)
  from Cons.prems(2) obtain s1 where s1: "f s i = Inr s1" and rest: "efold f xs s1 = Inr s'"
    by (auto split: sum.splits)
  from step[OF Cons.prems(1) s1] rest show ?case by (rule Cons.IH)
qed

lemma for_range_inv:
  assumes step: "\<And>s c i s' c'. P s c \<Longrightarrow> body s c i = (Inr s', c') \<Longrightarrow> P s' c'"
  shows "P s c \<Longrightarrow> for_range body xs s c = (Inr s', c') \<Longrightarrow> P s' c'"
proof (induction xs arbitrary: s c)
  case Nil
  then show ?case by simp
next
  case (Cons i xs)
  from Cons.prems(2) obtain s1 c1 where s1: "body s c i = (Inr s1, c1)"
      and rest: "for_range body xs s1 c1 = (Inr s', c')"
    by (auto split: sum.splits prod.splits)
  from step[OF Cons.prems(1) s1] rest show ?case by (rule Cons.IH)
qed



lemma efold_shape:
  assumes "\<And>s i s'. f s i = Inr s' \<Longrightarrow> shape s' = shape s"
  shows "efold f xs s = Inr s' \<Longrightarrow> shape s' = shape s"
  using efold_inv[where P="\<lambda>t. shape t = shape s" and f=f and s=s and xs=xs and s'=s'] assms
  by simp

lemma for_range_shape:
  assumes "\<And>s c i s' c'. body s c i = (Inr s', c') \<Longrightarrow> shape s' = shape s"
  shows "for_range body xs s c = (Inr s', c') \<Longrightarrow> shape s' = shape s"
  using for_range_inv[where P="\<lambda>t c. shape t = shape s" and body=body and s=s and xs=xs
      and s'=s' and c=c and c'=c'] assms
  by simp

lemma setitem_shape: "setitem a ixs src = Inr a' \<Longrightarrow> shape a' = shape a"
  by (auto simp: setitem_def ebind_Inr split: if_splits)

lemma patch_apply_shape:
  assumes "patch_apply m data deep bx by bz fr calls = (Inr fr', calls')"
  shows "shape fr' = shape fr"
proof -
  from assms obtain combined where
    "setitem fr (patch_selector bx by bz @ [Full]) combined = Inr fr'"
    unfolding patch_apply_def
    by (auto simp: ebind_Inr split: sum.splits prod.splits)
  then show ?thesis by (rule setitem_shape)
qed

lemma patch_body_shape:
  assumes "patch_body m data ps po deep x y fr calls z = (Inr fr', calls')"
  shows "shape fr' = shape fr"
  using assms unfolding patch_body_def
  by (auto split: sum.splits option.splits dest: patch_apply_shape)

lemma patch_loop_y_shape:
  assumes "patch_loop_y m data ps po deep x fr calls y = (Inr fr', calls')"
  shows "shape fr' = shape fr"
proof -
  from assms obtain zs where
    "for_range (patch_body m data ps po deep x y) zs fr calls = (Inr fr', calls')"
    unfolding patch_loop_y_def by (auto split: sum.splits)
  then show ?thesis by (rule for_range_shape[rotated]) (rule patch_body_shape)
qed

lemma patch_loop_x_shape:
  assumes "patch_loop_x m data ps po deep fr calls x = (Inr fr', calls')"
  shows "shape fr' = shape fr"
proof -
  from assms obtain ys where
    "for_range (patch_loop_y m data ps po deep x) ys fr calls = (Inr fr', calls')"
    unfolding patch_loop_x_def by (auto split: sum.splits)
  then show ?thesis by (rule for_range_shape[rotated]) (rule patch_loop_y_shape)
qed

lemma np_zeros_shape:
  "np_zeros dims = Inr a \<Longrightarrow> shape a = map nat dims \<and> list_all (\<lambda>d. 0 \<le> d) dims"
  by (auto simp: np_zeros_def list_ex_iff list_all_iff not_less split: if_splits)

lemma pad_axis_shape [simp]: "shape (pad_axis a k l t) = (shape a)[k := l + shape a ! k + t]"
  by (simp add: pad_axis_def)

lemma padding_patchwise_shape:
  assumes pad: "padding_for_inference_both_ends_patchwise data ps = Inr (d', e0, e1, e2, e3, e4, e5)"
    and vol: "shape data = [X, Y, Z]"
  shows "shape d' = [nat e0 + X + nat e1, nat e2 + Y + nat e3, nat e4 + Z + nat e5] \<and>
         0 \<le> e0 \<and> 0 \<le> e1 \<and> 0 \<le> e2 \<and> 0 \<le> e3 \<and> 0 \<le> e4 \<and> 0 \<le> e5"
proof -
  define d0 where "d0 = nat (ps ! 0 - int X)"
  define d1 where "d1 = nat (ps ! 1 - int Y)"
  define d2 where "d2 = nat (ps ! 2 - int Z)"
  from pad vol have "\<not> length ps < 3"
    by (simp add: padding_for_inference_both_ends_patchwise_def split: if_splits)
  with pad vol have
    d': "d' = pad_axis (pad_axis (pad_axis data 0 (d0 div 2) (d0 - d0 div 2))
                                1 (d1 div 2) (d1 - d1 div 2))
                       2 (d2 div 2) (d2 - d2 div 2)"
    and e: "e0 = int (d0 div 2)" "e1 = int (d0 - d0 div 2)" "e2 = int (d1 div 2)"
      "e3 = int (d1 - d1 div 2)" "e4 = int (d2 div 2)" "e5 = int (d2 - d2 div 2)"
    unfolding padding_for_inference_both_ends_patchwise_def Let_def d0_def d1_def d2_def
    by simp_all
  have "d0 div 2 + (d0 - d0 div 2) = d0" "d1 div 2 + (d1 - d1 div 2) = d1"
    "d2 div 2 + (d2 - d2 div 2) = d2" by arith+
  then show ?thesis unfolding d' e using vol by (simp add: nat_int del: of_nat_diff)
qed

lemma getitem_Inr:
  "getitem a ixs = Inr r \<longleftrightarrow>
     (\<exists>rs. resolve (shape a) ixs = Inr rs \<and>
           r = \<lparr>shape = view_shape rs, elems = (\<lambda>vi. elems a (to_base rs vi)), dtype = dtype a\<rparr>)"
  by (auto simp: getitem_def ebind_Inr)

lemma clip_strip:
  "0 \<le> a \<Longrightarrow> 0 \<le> b \<Longrightarrow>
     py_clip (nat a + n + nat b) (int (nat a + n + nat b) - b) - py_clip (nat a + n + nat b) a = n"
  by (simp add: py_clip_def)

lemma strip_padding_shape:
  assumes strip: "strip_padding fr (e0, e1, e2, e3, e4, e5) = Inr r"
    and fr: "shape fr = [nat e0 + X + nat e1, nat e2 + Y + nat e3, nat e4 + Z + nat e5, C]"
    and nonneg: "0 \<le> e0" "0 \<le> e1" "0 \<le> e2" "0 \<le> e3" "0 \<le> e4" "0 \<le> e5"
  shows "shape r = [X, Y, Z, C]"
proof -
  from strip obtain rs where
    rs: "resolve (shape fr)
           [Slice (Some e0) (Some (int (nat e0 + X + nat e1) - e1)),
            Slice (Some e2) (Some (int (nat e2 + Y + nat e3) - e3)),
            Slice (Some e4) (Some (int (nat e4 + Z + nat e5) - e5)), Full] = Inr rs"
    and r: "shape r = view_shape rs"
    unfolding strip_padding_def by (auto simp: fr list_at_def getitem_Inr)
  from rs have "view_shape rs =
      [py_clip (nat e0 + X + nat e1) (int (nat e0 + X + nat e1) - e1) - py_clip (nat e0 + X + nat e1) e0,
       py_clip (nat e2 + Y + nat e3) (int (nat e2 + Y + nat e3) - e3) - py_clip (nat e2 + Y + nat e3) e2,
       py_clip (nat e4 + Z + nat e5) (int (nat e4 + Z + nat e5) - e5) - py_clip (nat e4 + Z + nat e5) e4,
       C]"
    unfolding fr by (auto simp: Let_def)
  with r nonneg show ?thesis by (simp only: clip_strip)
qed


lemma patch_try_shape:
  assumes run: "patch_try m data p deep = (Inr r, calls)" and vol: "shape data = [X, Y, Z]"
  shows "shape r = [X, Y, Z, nat (training_nb_classes p)] \<and> 0 \<le> training_nb_classes p"
proof -
  from run obtain d' extra fr xs fr' where
    pad: "padding_for_inference_both_ends_patchwise data (training_patch_size p) = Inr (d', extra)"
    and z: "np_zeros (map int (shape d') @ [training_nb_classes p]) = Inr fr"
    and loop: "for_range (patch_loop_x m (expand_dims_last d') (training_patch_size p)
                 (training_patch_offset p) deep) xs fr [] = (Inr fr', calls)"
    and strip: "strip_padding fr' extra = Inr r"
    unfolding patch_try_def Let_def
    by (auto simp: ebind_Inr split: sum.splits prod.splits)
  obtain e0 e1 e2 e3 e4 e5 where extra: "extra = (e0, e1, e2, e3, e4, e5)"
    by (cases extra) auto
  note ps = padding_patchwise_shape[OF pad[unfolded extra] vol]
  from np_zeros_shape[OF z] have nb: "0 \<le> training_nb_classes p"
    and fr: "shape fr = shape d' @ [nat (training_nb_classes p)]"
    by (simp_all add: comp_def)
  have "shape fr' = shape fr"
    using loop by (rule for_range_shape[rotated]) (rule patch_loop_x_shape)
  with fr ps have "shape fr' = [nat e0 + X + nat e1, nat e2 + Y + nat e3, nat e4 + Z + nat e5,
      nat (training_nb_classes p)]" by simp
  from strip_padding_shape[OF strip[unfolded extra] this] ps nb show ?thesis by simp
qed

section \<open>The shape of the result\<close>

lemma write_chunk_shape:
  "write_chunk plane slab_size pad_value chunk unpad pred fr c = Inr fr' \<Longrightarrow> shape fr' = shape fr"
  by (auto simp: write_chunk_def Let_def ebind_Inr split: if_splits dest: setitem_shape)

lemma slab_single_write_shape:
  "slab_single_write pred slice fr c = Inr fr' \<Longrightarrow> shape fr' = shape fr"
  by (auto simp: slab_single_write_def ebind_Inr split: pyval.splits dest: setitem_shape)

lemma slab_window_write_shape:
  "slab_window_write plane h pred slice fr c = Inr fr' \<Longrightarrow> shape fr' = shape fr"
  by (auto simp: slab_window_write_def Let_def ebind_Inr split: if_splits dest: setitem_shape)

lemma chunk_body_shape:
  assumes "chunk_body m p deep data pad scale st calls chunk = (Inr st', calls')"
  shows "shape (fst st') = shape (fst st)"
proof -
  from assms obtain pred n unpad where
    "efold (write_chunk (slicing_plane p) (training_slab_size p) pad chunk unpad pred)
       (py_range 0 n) (fst st) = Inr (fst st')"
    unfolding chunk_body_def Let_def
    by (auto simp: ebind_Inr split: sum.splits prod.splits)
  then show ?thesis by (rule efold_shape[rotated]) (rule write_chunk_shape)
qed

lemma slab_single_body_shape:
  assumes "slab_single_body m p deep data fr calls slice = (Inr fr', calls')"
  shows "shape fr' = shape fr"
proof -
  from assms have "fr' = fr \<or>
      (\<exists>pred n. efold (slab_single_write pred slice) (py_range 0 n) fr = Inr fr')"
    unfolding slab_single_body_def
    by (auto simp: ebind_Inr split: sum.splits prod.splits if_splits)
  then show ?thesis
  proof
    assume "fr' = fr" then show ?thesis by simp
  next
    assume "\<exists>pred n. efold (slab_single_write pred slice) (py_range 0 n) fr = Inr fr'"
    then obtain pred n where "efold (slab_single_write pred slice) (py_range 0 n) fr = Inr fr'"
      by blast
    then show ?thesis by (rule efold_shape[rotated]) (rule slab_single_write_shape)
  qed
qed

lemma slab_window_body_shape:
  assumes "slab_window_body m p deep data h fr calls slice = (Inr fr', calls')"
  shows "shape fr' = shape fr"
proof -
  from assms have "fr' = fr \<or>
      (\<exists>pred n. efold (slab_window_write (slicing_plane p) h pred slice) (py_range 0 n) fr = Inr fr')"
    unfolding slab_window_body_def Let_def
    by (auto simp: ebind_Inr split: sum.splits prod.splits if_splits)
  then show ?thesis
  proof
    assume "fr' = fr" then show ?thesis by simp
  next
    assume "\<exists>pred n. efold (slab_window_write (slicing_plane p) h pred slice) (py_range 0 n) fr = Inr fr'"
    then obtain pred n where
      "efold (slab_window_write (slicing_plane p) h pred slice) (py_range 0 n) fr = Inr fr'"
      by blast
    then show ?thesis by (rule efold_shape[rotated]) (rule slab_window_write_shape)
  qed
qed

lemma slabbed_try_shape:
  assumes "slabbed_try m data p deep = (Inr r, calls)"
  shows "shape r = shape data @ [nat (training_nb_classes p)] \<and> 0 \<le> training_nb_classes p"
proof -
  from assms obtain ub fr where z: "np_zeros (map int (shape data) @ [training_nb_classes p]) = Inr fr"
    and run: "(if predictions_non_overlapping p
             then slab_non_overlapping m p deep (expand_dims_last data) ub fr
             else if training_slab_size p = 1
             then slab_sliding_single m p deep (expand_dims_last data) fr
             else slab_sliding_window m p deep (expand_dims_last data) ub fr) = (Inr r, calls)"
    unfolding slabbed_try_def Let_def
    by (auto simp: ebind_Inr split: sum.splits prod.splits)
  from np_zeros_shape[OF z] have fr: "shape fr = shape data @ [nat (training_nb_classes p)]"
    and nb: "0 \<le> training_nb_classes p" by (simp_all add: comp_def)
  have "shape r = shape fr"
  proof (cases "predictions_non_overlapping p")
    case True
    with run obtain d' pad scale st where
      loop: "for_range (chunk_body m p deep d' pad scale) (py_range 0 scale) (fr, False) [] = (Inr st, calls)"
      and r: "r = fst st"
      unfolding slab_non_overlapping_def Let_def
      by (auto simp: ebind_Inr split: sum.splits prod.splits)
    have "shape (fst st) = shape (fst (fr, False))"
      using for_range_inv[where P="\<lambda>st c. shape (fst st) = shape (fst (fr, False))"
          and body="chunk_body m p deep d' pad scale", OF _ _ loop]
        chunk_body_shape by simp
    with r show ?thesis by simp
  next
    case False
    show ?thesis
    proof (cases "training_slab_size p = 1")
      case True
      with run False obtain n where
        "for_range (slab_single_body m p deep (expand_dims_last data)) (py_range 0 (int n)) fr [] = (Inr r, calls)"
        unfolding slab_sliding_single_def by (auto split: sum.splits)
      then show ?thesis by (rule for_range_shape[rotated]) (rule slab_single_body_shape)
    next
      case F2: False
      with run False obtain d' h where
        "for_range (slab_window_body m p deep d' h) (py_range h ub) fr [] = (Inr r, calls)"
        unfolding slab_sliding_window_def Let_def by (auto split: sum.splits)
      then show ?thesis by (rule for_range_shape[rotated]) (rule slab_window_body_shape)
    qed
  qed
  with fr nb show ?thesis by simp
qed

lemma resolve_Nil: "resolve sh [] = Inr (map (RSlice 0) sh)"
  by (induction sh) simp_all

lemma view_shape_full: "view_shape (map (RSlice 0) sh) = sh"
  by (induction sh) simp_all

lemma whole_shape:
  assumes run: "run_predictions_whole m data deep = (Inr r, calls)"
    and out: "\<And>out rest. m (expand_dims_last (expand_dims_first data)) = Some (out # rest) \<Longrightarrow>
                shape out = 1 # sh"
  shows "shape r = sh"
proof -
  from run obtain outs where m: "m (expand_dims_last (expand_dims_first data)) = Some outs"
    and r: "ebind (py_getitem0 (Lst outs)) (\<lambda>p. getitem p [Idx 0]) = Inr r"
    unfolding run_predictions_whole_def Let_def invoke_def
    by (auto split: option.splits)
  from r obtain o1 rest where outs: "outs = o1 # rest" and g: "getitem o1 [Idx 0] = Inr r"
    by (cases outs) (auto simp: py_getitem0_def ebind_Inr)
  from out[OF m[unfolded outs]] have "shape o1 = 1 # sh" .
  with g show ?thesis
    by (auto simp: getitem_Inr ebind_Inr Let_def resolve_Nil view_shape_full split: if_splits)
qed

text \<open>
  Claim C1. When \<open>run_predictions\<close> returns a probability volume for a three-dimensional
  volume, the first three extents of the result are the extents of the volume and the
  fourth is \<open>training_nb_classes\<close>. The slab and the patch strategy allocate the result
  with that shape and cut the padding off again, whatever the model returns. The
  whole-volume strategy returns the first batch element of the model's first output as it
  is, so there the statement is about the valid models: those whose first output, for the
  volume, has one batch element, the extents of the volume and \<open>training_nb_classes\<close>
  classes.
\<close>

theorem shape_invariance:
  assumes run: "run_predictions m data parameters = ((Inr r, calls), parameters')"
    and vol: "shape data = [X, Y, Z]"
    and whole: "\<And>nas out rest. new_axial_size parameters = Some nas \<Longrightarrow> length nas = 3 \<Longrightarrow>
        m (expand_dims_last (expand_dims_first data)) = Some (out # rest) \<Longrightarrow>
        shape out = [1, X, Y, Z, nat (training_nb_classes parameters)] \<and>
        0 \<le> training_nb_classes parameters"
  shows "take 3 (shape r) = shape data \<and> length (shape r) = 4 \<and>
         int (shape r ! 3) = training_nb_classes parameters"
proof -
  have "shape r = [X, Y, Z, nat (training_nb_classes parameters)] \<and>
        0 \<le> training_nb_classes parameters"
  proof (cases "new_axial_size parameters")
    case None
    with run have "patch_try m data parameters (training_deep_supervision parameters) = (Inr r, calls)"
      by (auto simp: run_predictions_def run_predictions_patch_def split: sum.splits prod.splits)
    from patch_try_shape[OF this vol] show ?thesis .
  next
    case (Some nas)
    show ?thesis
    proof (cases "length nas = 3")
      case True
      with run Some have w: "run_predictions_whole m data (training_deep_supervision parameters) = (Inr r, calls)"
        by (auto simp: run_predictions_def)
      then obtain outs where m: "m (expand_dims_last (expand_dims_first data)) = Some outs"
        and r: "ebind (py_getitem0 (Lst outs)) (\<lambda>p. getitem p [Idx 0]) = Inr r"
        unfolding run_predictions_whole_def Let_def invoke_def
        by (auto split: option.splits)
      from r obtain o1 rest where outs: "outs = o1 # rest"
        by (cases outs) (auto simp: py_getitem0_def)
      from whole[OF Some True m[unfolded outs]]
      have sh: "\<And>out rest. m (expand_dims_last (expand_dims_first data)) = Some (out # rest) \<Longrightarrow>
                shape out = 1 # [X, Y, Z, nat (training_nb_classes parameters)]"
        and nb: "0 \<le> training_nb_classes parameters"
        using m outs by auto
      from whole_shape[OF w sh] nb show ?thesis by simp
    next
      case False
      show ?thesis
      proof (cases "length nas = 2")
        case True
        with run Some False obtain p' where
          "slabbed_try m data p' (training_deep_supervision parameters) = (Inr r, calls)"
          and "training_nb_classes p' = training_nb_classes parameters"
          by (auto simp: run_predictions_def run_predictions_slabbed_def swap_axial_def
              split: sum.splits prod.splits if_splits)
        with slabbed_try_shape[of m data p' _ r calls] vol show ?thesis by simp
      next
        case F2: False
        with run Some False
        have "patch_try m data parameters (training_deep_supervision parameters) = (Inr r, calls)"
          by (auto simp: run_predictions_def run_predictions_patch_def split: sum.splits prod.splits)
        from patch_try_shape[OF this vol] show ?thesis .
      qed
    qed
  qed
  with vol show ?thesis by simp
qed

theorem shape_invariance_witness:
  "(\<exists>r. fst (fst (run_predictions identity_model (ramp_volume 0 [4, 1, 1])
            (slab_config ''axial'' 1 [4, 1, 1]))) = Inr r \<and> shape r = [4, 1, 1, 1]) \<and>
   (\<exists>r. fst (fst (run_predictions identity_model (ramp_volume 0 [4, 1, 1])
            (slab_config ''sagittal'' 2 [1, 1]))) = Inr r \<and> shape r = [4, 1, 1, 1]) \<and>
   (\<exists>r. fst (fst (run_predictions identity_model (ramp_volume 2 [1, 1, 3])
            (patch_config [1, 1, 2] [0, 0, 1] 1))) = Inr r \<and> shape r = [1, 1, 3, 1])"
proof -
  have vol: "shape (ramp_volume 0 [4, 1, 1]) = [4, 1, 1]" "shape (ramp_volume 2 [1, 1, 3]) = [1, 1, 3]"
    by (simp_all add: ramp_volume_def)
  have shape4: "\<And>sh a b c d. take 3 sh = [a, b, c] \<and> length sh = 4 \<and> int (sh ! 3) = d \<Longrightarrow>
      sh = [a, b, c, nat d]"
  proof -
    fix sh :: "nat list" and a b c d
    assume h: "take 3 sh = [a, b, c] \<and> length sh = 4 \<and> int (sh ! 3) = d"
    then obtain w x y z where sh: "sh = [w, x, y, z]"
      by (cases sh; cases "tl sh"; cases "tl (tl sh)"; cases "tl (tl (tl sh))") auto
    with h show "sh = [a, b, c, nat d]" by auto
  qed
  let ?w = "run_predictions identity_model (ramp_volume 0 [4, 1, 1]) (slab_config ''axial'' 1 [4, 1, 1])"
  have "case fst (fst ?w) of Inr r \<Rightarrow> True | Inl e \<Rightarrow> False" by code_simp
  then obtain rw where rw: "fst (fst ?w) = Inr rw" by (cases "fst (fst ?w)") auto
  then have "?w = ((Inr rw, snd (fst ?w)), snd ?w)" by (metis prod.collapse)
  moreover note vol(1)
  moreover have "\<And>nas out rest. new_axial_size (slab_config ''axial'' 1 [4, 1, 1]) = Some nas \<Longrightarrow> length nas = 3 \<Longrightarrow>
        identity_model (expand_dims_last (expand_dims_first (ramp_volume 0 [4, 1, 1]))) = Some (out # rest) \<Longrightarrow>
        shape out = [1, 4, 1, 1, nat (training_nb_classes (slab_config ''axial'' 1 [4, 1, 1]))] \<and> 0 \<le> training_nb_classes (slab_config ''axial'' 1 [4, 1, 1])"
    by (auto simp: slab_config_def identity_model_def expand_dims_last_def expand_dims_first_def
        ramp_volume_def)
  ultimately have "take 3 (shape rw) = shape (ramp_volume 0 [4, 1, 1]) \<and> length (shape rw) = 4 \<and>
      int (shape rw ! 3) = training_nb_classes (slab_config ''axial'' 1 [4, 1, 1])"
    by (rule shape_invariance)
  then have w: "shape rw = [4, 1, 1, 1]"
    using shape4[of "shape rw" _ _ _ 1] by (simp add: slab_config_def ramp_volume_def)
  let ?s = "run_predictions identity_model (ramp_volume 0 [4, 1, 1]) (slab_config ''sagittal'' 2 [1, 1])"
  have "case fst (fst ?s) of Inr r \<Rightarrow> True | Inl e \<Rightarrow> False" by code_simp
  then obtain rs where rs: "fst (fst ?s) = Inr rs" by (cases "fst (fst ?s)") auto
  then have "?s = ((Inr rs, snd (fst ?s)), snd ?s)" by (metis prod.collapse)
  moreover note vol(1)
  moreover have "\<And>nas out rest. new_axial_size (slab_config ''sagittal'' 2 [1, 1]) = Some nas \<Longrightarrow> length nas = 3 \<Longrightarrow>
        identity_model (expand_dims_last (expand_dims_first (ramp_volume 0 [4, 1, 1]))) = Some (out # rest) \<Longrightarrow>
        shape out = [1, 4, 1, 1, nat (training_nb_classes (slab_config ''sagittal'' 2 [1, 1]))] \<and> 0 \<le> training_nb_classes (slab_config ''sagittal'' 2 [1, 1])"
    by (auto simp: slab_config_def identity_model_def expand_dims_last_def expand_dims_first_def
        ramp_volume_def)
  ultimately have "take 3 (shape rs) = shape (ramp_volume 0 [4, 1, 1]) \<and> length (shape rs) = 4 \<and>
      int (shape rs ! 3) = training_nb_classes (slab_config ''sagittal'' 2 [1, 1])"
    by (rule shape_invariance)
  then have s: "shape rs = [4, 1, 1, 1]"
    using shape4[of "shape rs" _ _ _ 1] by (simp add: slab_config_def ramp_volume_def)
  let ?p = "run_predictions identity_model (ramp_volume 2 [1, 1, 3]) (patch_config [1, 1, 2] [0, 0, 1] 1)"
  have "case fst (fst ?p) of Inr r \<Rightarrow> True | Inl e \<Rightarrow> False" by code_simp
  then obtain rp where rp: "fst (fst ?p) = Inr rp" by (cases "fst (fst ?p)") auto
  then have "?p = ((Inr rp, snd (fst ?p)), snd ?p)" by (metis prod.collapse)
  moreover note vol(2)
  moreover have "\<And>nas out rest. new_axial_size (patch_config [1, 1, 2] [0, 0, 1] 1) = Some nas \<Longrightarrow> length nas = 3 \<Longrightarrow>
        identity_model (expand_dims_last (expand_dims_first (ramp_volume 2 [1, 1, 3]))) = Some (out # rest) \<Longrightarrow>
        shape out = [1, 1, 1, 3, nat (training_nb_classes (patch_config [1, 1, 2] [0, 0, 1] 1))] \<and> 0 \<le> training_nb_classes (patch_config [1, 1, 2] [0, 0, 1] 1)"
    by (auto simp: patch_config_def identity_model_def expand_dims_last_def expand_dims_first_def
        ramp_volume_def)
  ultimately have "take 3 (shape rp) = shape (ramp_volume 2 [1, 1, 3]) \<and> length (shape rp) = 4 \<and>
      int (shape rp ! 3) = training_nb_classes (patch_config [1, 1, 2] [0, 0, 1] 1)"
    by (rule shape_invariance)
  then have p: "shape rp = [1, 1, 3, 1]"
    using shape4[of "shape rp" _ _ _ 1] by (simp add: patch_config_def ramp_volume_def)
  from rw w rs s rp p show ?thesis by blast
qed

section \<open>Failing calls of the model\<close>

lemma invoke_Inr:
  "invoke m x c = (Inr p, c') \<Longrightarrow> c' = c @ [x] \<and> (\<exists>outs. m x = Some outs \<and> p = Lst outs)"
  by (auto simp: invoke_def split: option.splits)

lemma invoke_ok:
  "invoke m x c = (Inr p, c') \<Longrightarrow> list_all (\<lambda>x. m x \<noteq> None) c \<Longrightarrow> list_all (\<lambda>x. m x \<noteq> None) c'"
  by (auto dest: invoke_Inr)

lemma for_range_ok:
  assumes "\<And>s c i s' c'. body s c i = (Inr s', c') \<Longrightarrow> list_all (\<lambda>x. m x \<noteq> None) c \<Longrightarrow>
             list_all (\<lambda>x. m x \<noteq> None) c'"
  shows "for_range body xs s c = (Inr s', c') \<Longrightarrow> list_all (\<lambda>x. m x \<noteq> None) c \<Longrightarrow>
           list_all (\<lambda>x. m x \<noteq> None) c'"
  using for_range_inv[where P="\<lambda>t c. list_all (\<lambda>x. m x \<noteq> None) c" and body=body and s=s
      and xs=xs and s'=s' and c=c and c'=c'] assms
  by blast

lemma chunk_body_ok:
  assumes "chunk_body m p deep data pad scale st calls chunk = (Inr st', calls')"
    and "list_all (\<lambda>x. m x \<noteq> None) calls"
  shows "list_all (\<lambda>x. m x \<noteq> None) calls'"
proof -
  from assms(1) obtain inp pred where "invoke m inp calls = (Inr pred, calls')"
    unfolding chunk_body_def Let_def
    by (auto simp: ebind_Inr split: sum.splits prod.splits)
  from invoke_ok[OF this assms(2)] show ?thesis .
qed

lemma slab_single_body_ok:
  assumes "slab_single_body m p deep data fr calls slice = (Inr fr', calls')"
    and "list_all (\<lambda>x. m x \<noteq> None) calls"
  shows "list_all (\<lambda>x. m x \<noteq> None) calls'"
proof -
  from assms(1) have "calls' = calls \<or> (\<exists>inp pred. invoke m inp calls = (Inr pred, calls'))"
    unfolding slab_single_body_def
    by (auto simp: ebind_Inr split: sum.splits prod.splits if_splits)
  with assms(2) show ?thesis by (auto dest: invoke_ok)
qed

lemma slab_window_body_ok:
  assumes "slab_window_body m p deep data h fr calls slice = (Inr fr', calls')"
    and "list_all (\<lambda>x. m x \<noteq> None) calls"
  shows "list_all (\<lambda>x. m x \<noteq> None) calls'"
proof -
  from assms(1) have "calls' = calls \<or> (\<exists>inp pred. invoke m inp calls = (Inr pred, calls'))"
    unfolding slab_window_body_def Let_def
    by (auto simp: ebind_Inr split: sum.splits prod.splits if_splits)
  with assms(2) show ?thesis by (auto dest: invoke_ok)
qed

lemma patch_apply_ok:
  assumes "patch_apply m data deep bx by bz fr calls = (Inr fr', calls')"
    and "list_all (\<lambda>x. m x \<noteq> None) calls"
  shows "list_all (\<lambda>x. m x \<noteq> None) calls'"
proof -
  from assms(1) obtain inp pred where "invoke m inp calls = (Inr pred, calls')"
    unfolding patch_apply_def
    by (auto simp: ebind_Inr split: sum.splits prod.splits)
  from invoke_ok[OF this assms(2)] show ?thesis .
qed

lemma patch_body_ok:
  assumes "patch_body m data ps po deep x y fr calls z = (Inr fr', calls')"
    and "list_all (\<lambda>x. m x \<noteq> None) calls"
  shows "list_all (\<lambda>x. m x \<noteq> None) calls'"
  using assms unfolding patch_body_def
  by (auto split: sum.splits option.splits dest: patch_apply_ok)

lemma patch_loop_y_ok:
  assumes "patch_loop_y m data ps po deep x fr calls y = (Inr fr', calls')"
    and "list_all (\<lambda>x. m x \<noteq> None) calls"
  shows "list_all (\<lambda>x. m x \<noteq> None) calls'"
proof -
  from assms(1) obtain zs where
    "for_range (patch_body m data ps po deep x y) zs fr calls = (Inr fr', calls')"
    unfolding patch_loop_y_def by (auto split: sum.splits)
  then show ?thesis using assms(2) by (rule for_range_ok[rotated]) (rule patch_body_ok)
qed

lemma patch_loop_x_ok:
  assumes "patch_loop_x m data ps po deep fr calls x = (Inr fr', calls')"
    and "list_all (\<lambda>x. m x \<noteq> None) calls"
  shows "list_all (\<lambda>x. m x \<noteq> None) calls'"
proof -
  from assms(1) obtain ys where
    "for_range (patch_loop_y m data ps po deep x) ys fr calls = (Inr fr', calls')"
    unfolding patch_loop_x_def by (auto split: sum.splits)
  then show ?thesis using assms(2) by (rule for_range_ok[rotated]) (rule patch_loop_y_ok)
qed

lemma patch_try_ok:
  assumes "patch_try m data p deep = (Inr r, calls)"
  shows "list_all (\<lambda>x. m x \<noteq> None) calls"
proof -
  from assms obtain d' xs fr fr' where
    loop: "for_range (patch_loop_x m (expand_dims_last d') (training_patch_size p)
                 (training_patch_offset p) deep) xs fr [] = (Inr fr', calls)"
    unfolding patch_try_def Let_def
    by (auto simp: ebind_Inr split: sum.splits prod.splits)
  have nil: "list_all (\<lambda>x. m x \<noteq> None) []" by simp
  from loop nil show ?thesis by (rule for_range_ok[rotated]) (rule patch_loop_x_ok)
qed

lemma slabbed_try_ok:
  assumes "slabbed_try m data p deep = (Inr r, calls)"
  shows "list_all (\<lambda>x. m x \<noteq> None) calls"
proof -
  from assms obtain ub fr where
    run: "(if predictions_non_overlapping p
             then slab_non_overlapping m p deep (expand_dims_last data) ub fr
             else if training_slab_size p = 1
             then slab_sliding_single m p deep (expand_dims_last data) fr
             else slab_sliding_window m p deep (expand_dims_last data) ub fr) = (Inr r, calls)"
    unfolding slabbed_try_def Let_def
    by (auto simp: ebind_Inr split: sum.splits prod.splits)
  have nil: "list_all (\<lambda>x. m x \<noteq> None) []" by simp
  show ?thesis
  proof (cases "predictions_non_overlapping p")
    case True
    with run obtain d' pad scale st where
      loop: "for_range (chunk_body m p deep d' pad scale) (py_range 0 scale) (fr, False) [] = (Inr st, calls)"
      unfolding slab_non_overlapping_def Let_def
      by (auto simp: ebind_Inr split: sum.splits prod.splits)
    from loop nil show ?thesis by (rule for_range_ok[rotated]) (rule chunk_body_ok)
  next
    case False
    show ?thesis
    proof (cases "training_slab_size p = 1")
      case True
      with run False obtain n where
        loop: "for_range (slab_single_body m p deep (expand_dims_last data)) (py_range 0 (int n)) fr [] = (Inr r, calls)"
        unfolding slab_sliding_single_def by (auto split: sum.splits)
      from loop nil show ?thesis by (rule for_range_ok[rotated]) (rule slab_single_body_ok)
    next
      case F2: False
      with run False obtain d' h where
        loop: "for_range (slab_window_body m p deep d' h) (py_range h ub) fr [] = (Inr r, calls)"
        unfolding slab_sliding_window_def Let_def by (auto split: sum.splits)
      from loop nil show ?thesis by (rule for_range_ok[rotated]) (rule slab_window_body_ok)
    qed
  qed
qed

lemma run_predictions_patch_fail:
  assumes "run_predictions_patch m data p deep = (res, calls)" and "x \<in> set calls" and "m x = None"
  shows "res = Inl (ValueError patch_msg)"
proof (cases "patch_try m data p deep")
  case (Pair r c)
  show ?thesis
  proof (cases r)
    case (Inl e)
    with Pair assms(1) show ?thesis by (simp add: run_predictions_patch_def)
  next
    case (Inr v)
    with Pair assms(1) have "c = calls" by (simp add: run_predictions_patch_def)
    with patch_try_ok[of m data p deep v c] Pair Inr assms(2,3) show ?thesis
      by (auto simp: list_all_iff)
  qed
qed

lemma run_predictions_slabbed_fail:
  assumes "run_predictions_slabbed m data p deep = ((res, calls), p')" and "x \<in> set calls" and "m x = None"
  shows "res = Inl (ValueError slab_msg)"
proof (cases "swap_axial p")
  case (Inl e)
  with assms(1) show ?thesis by (simp add: run_predictions_slabbed_def)
next
  case (Inr q)
  show ?thesis
  proof (cases "slabbed_try m data q deep")
    case (Pair r c)
    show ?thesis
    proof (cases r)
      case (Inl e)
      with Pair Inr assms(1) show ?thesis by (simp add: run_predictions_slabbed_def)
    next
      case r: (Inr v)
      with Pair Inr assms(1) have "c = calls" by (simp add: run_predictions_slabbed_def)
      with slabbed_try_ok[of m data q deep v c] Pair r assms(2,3) show ?thesis
        by (auto simp: list_all_iff)
    qed
  qed
qed

lemma run_predictions_whole_fail:
  assumes "run_predictions_whole m data deep = (res, calls)" and "x \<in> set calls" and "m x = None"
  shows "res = Inl (ValueError whole_msg)"
  using assms unfolding run_predictions_whole_def Let_def invoke_def
  by (auto split: option.splits)

text \<open>
  Claim C7. If any call of the model made during a run raises, \<open>run_predictions\<close> raises
  the one error of the strategy in use, with the message that names the mode; the outcome
  is that error, so no array, partial or not, is returned.
\<close>

theorem failed_call_aborts_with_mode_error:
  assumes run: "run_predictions m data parameters = ((res, calls), parameters')"
    and x: "x \<in> set calls" and fails: "m x = None"
  shows "res = Inl (ValueError
           (case new_axial_size parameters of
              None \<Rightarrow> patch_msg
            | Some nas \<Rightarrow> if length nas = 3 then whole_msg
                          else if length nas = 2 then slab_msg else patch_msg))"
proof (cases "new_axial_size parameters")
  case None
  with run have "run_predictions_patch m data parameters (training_deep_supervision parameters) = (res, calls)"
    by (auto simp: run_predictions_def)
  from run_predictions_patch_fail[OF this x fails] None show ?thesis by simp
next
  case (Some nas)
  consider "length nas = 3" | "length nas = 2" | "length nas \<noteq> 3" "length nas \<noteq> 2" by blast
  then show ?thesis
  proof cases
    case 1
    with run Some have "run_predictions_whole m data (training_deep_supervision parameters) = (res, calls)"
      by (auto simp: run_predictions_def)
    from run_predictions_whole_fail[OF this x fails] Some 1 show ?thesis by simp
  next
    case 2
    with run Some have "run_predictions_slabbed m data parameters (training_deep_supervision parameters) = ((res, calls), parameters')"
      by (auto simp: run_predictions_def)
    from run_predictions_slabbed_fail[OF this x fails] Some 2 show ?thesis by simp
  next
    case 3
    with run Some have "run_predictions_patch m data parameters (training_deep_supervision parameters) = (res, calls)"
      by (auto simp: run_predictions_def)
    from run_predictions_patch_fail[OF this x fails] Some 3 show ?thesis by simp
  qed
qed

theorem failed_call_witness:
  "fst (fst (run_predictions (picky_model 2) (ramp_volume 0 [4, 1, 1])
       (slab_config ''sagittal'' 2 [1, 1]))) = Inl (ValueError slab_msg) \<and>
   length (snd (fst (run_predictions (picky_model 2) (ramp_volume 0 [4, 1, 1])
       (slab_config ''sagittal'' 2 [1, 1])))) = 2"
proof -
  let ?run = "run_predictions (picky_model 2) (ramp_volume 0 [4, 1, 1])
       (slab_config ''sagittal'' 2 [1, 1])"
  have len: "length (snd (fst ?run)) = 2" by code_simp
  have none: "picky_model 2 (snd (fst ?run) ! 1) = None" by code_simp
  from len have mem: "snd (fst ?run) ! 1 \<in> set (snd (fst ?run))" by simp
  have "?run = ((fst (fst ?run), snd (fst ?run)), snd ?run)" by simp
  from failed_call_aborts_with_mode_error[OF this mem none] len
  show ?thesis by (simp add: slab_config_def)
qed

section \<open>Empty slices\<close>

lemma count_above_zero:
  "count_above a t = 0 \<longleftrightarrow> (\<forall>i \<in> set (indices (shape a)). \<not> t < elems a i)"
  by (simp add: count_above_def filter_empty_conv)

lemma indices_2: "set (indices [X, Y]) = {[x, y] | x y. x < X \<and> y < Y}"
  by (auto simp: indices_def)

lemma slice_of_volume:
  assumes "shape data = [X, Y, Z]" and "k < Z"
  shows "getitem (expand_dims_last data) [Full, Full, Idx (int k), Idx 0] =
           Inr \<lparr>shape = [X, Y], elems = (\<lambda>vi. elems data [hd vi, hd (tl vi), k]), dtype = dtype data\<rparr>"
  using assms by (simp add: getitem_def expand_dims_last_def Let_def)

lemma slice_empty_iff:
  "count_above \<lparr>shape = [X, Y], elems = (\<lambda>vi. elems data [hd vi, hd (tl vi), k]), dtype = dtype data\<rparr> t = 0 \<longleftrightarrow>
     \<not> (\<exists>x<X. \<exists>y<Y. t < elems data [x, y, k])"
proof -
  have "(\<forall>i \<in> {[x, y] | x y. x < X \<and> y < Y}. \<not> t < elems data [hd i, hd (tl i), k]) \<longleftrightarrow>
        (\<forall>x<X. \<forall>y<Y. \<not> t < elems data [x, y, k])"
    by fastforce
  then show ?thesis by (simp add: count_above_zero indices_2)
qed

lemma setitem_other_slice:
  assumes "setitem fr [Full, Full, Idx (int k), Idx c] src = Inr fr'"
    and "shape fr = [X, Y, Z, C]" and "s \<noteq> k"
  shows "elems fr' [x, y, s, c'] = elems fr [x, y, s, c']"
  using assms
  by (auto simp: setitem_def ebind_Inr Let_def split: if_splits)

lemma slab_single_write_other_slice:
  assumes "slab_single_write pred (int k) fr c = Inr fr'"
    and "shape fr = [X, Y, Z, C]" and "s \<noteq> k"
  shows "elems fr' [x, y, s, c'] = elems fr [x, y, s, c'] \<and> shape fr' = [X, Y, Z, C]"
  using assms
  by (auto simp: slab_single_write_def ebind_Inr split: pyval.splits
      dest: setitem_other_slice setitem_shape)

lemma slab_single_writes_other_slice:
  assumes "efold (slab_single_write pred (int k)) cs fr = Inr fr'"
    and "shape fr = [X, Y, Z, C]" and "s \<noteq> k"
  shows "elems fr' [x, y, s, c'] = elems fr [x, y, s, c'] \<and> shape fr' = [X, Y, Z, C]"
  using efold_inv[where P="\<lambda>t. elems t [x, y, s, c'] = elems fr [x, y, s, c'] \<and> shape t = [X, Y, Z, C]"
      and f="slab_single_write pred (int k)" and s=fr and xs=cs and s'=fr'] assms
    slab_single_write_other_slice[where s=s and k=k]
  by metis

lemma slab_single_body_step:
  assumes body: "slab_single_body m p deep (expand_dims_last data) fr calls (int k) = (Inr fr', calls')"
    and vol: "shape data = [X, Y, Z]" and k: "k < Z" and fr: "shape fr = [X, Y, Z, C]"
  shows "shape fr' = [X, Y, Z, C] \<and>
         (s \<noteq> k \<longrightarrow> elems fr' [x, y, s, c] = elems fr [x, y, s, c]) \<and>
         (if \<exists>x<X. \<exists>y<Y. float_tenth (dtype data) < elems data [x, y, k]
          then map Inr calls' = map Inr calls @
                 [ebind (getitem (expand_dims_last data) [Full, Full, Idx (int k), Idx 0])
                    (\<lambda>slab. ebind (axial_at p 0) (\<lambda>n0. ebind (axial_at p 1)
                       (\<lambda>n1. np_reshape slab [1, n0, n1, 1])))]
          else fr' = fr \<and> calls' = calls)"
proof (cases "\<exists>x<X. \<exists>y<Y. float_tenth (dtype data) < elems data [x, y, k]")
  case False
  with body have "fr' = fr \<and> calls' = calls"
    unfolding slab_single_body_def slice_of_volume[OF vol k]
    by (simp add: slice_empty_iff)
  with False fr show ?thesis by simp
next
  case True
  let ?slab = "\<lparr>shape = [X, Y], elems = (\<lambda>vi. elems data [hd vi, hd (tl vi), k]), dtype = dtype data\<rparr>"
  from True have ne: "count_above ?slab (float_tenth (dtype data)) \<noteq> 0"
    by (simp add: slice_empty_iff)
  from body ne obtain inp pred0 pred n where
    inp: "ebind (axial_at p 0) (\<lambda>n0. ebind (axial_at p 1) (\<lambda>n1. np_reshape ?slab [1, n0, n1, 1])) = Inr inp"
    and inv: "invoke m inp calls = (Inr pred0, calls')"
    and wr: "efold (slab_single_write pred (int k)) (py_range 0 n) fr = Inr fr'"
    unfolding slab_single_body_def slice_of_volume[OF vol k]
    by (auto simp: ebind_Inr split: sum.splits prod.splits if_splits)
  from invoke_Inr[OF inv] have calls': "calls' = calls @ [inp]" by simp
  have sh: "shape fr' = [X, Y, Z, C]"
    using efold_shape[OF slab_single_write_shape wr] fr by simp
  have other: "s \<noteq> k \<longrightarrow> elems fr' [x, y, s, c] = elems fr [x, y, s, c]"
    using slab_single_writes_other_slice[OF wr fr] by blast
  from True sh other calls' inp show ?thesis
    by (simp add: slice_of_volume[OF vol k])
qed


lemma slab_single_loop:
  assumes vol: "shape data = [X, Y, Z]"
    and empty: "\<not> (\<exists>x<X. \<exists>y<Y. float_tenth (dtype data) < elems data [x, y, s])"
  shows "for_range (slab_single_body m p deep (expand_dims_last data)) (map int ks) fr calls =
           (Inr fr', calls') \<Longrightarrow>
         list_all (\<lambda>k. k < Z) ks \<Longrightarrow> shape fr = [X, Y, Z, C] \<Longrightarrow>
         elems fr' [x, y, s, c] = elems fr [x, y, s, c] \<and>
         map Inr calls' = map Inr calls @
           map (\<lambda>k. ebind (getitem (expand_dims_last data) [Full, Full, Idx (int k), Idx 0])
                  (\<lambda>slab. ebind (axial_at p 0) (\<lambda>n0. ebind (axial_at p 1)
                     (\<lambda>n1. np_reshape slab [1, n0, n1, 1]))))
             (filter (\<lambda>k. \<exists>x<X. \<exists>y<Y. float_tenth (dtype data) < elems data [x, y, k]) ks)"
proof (induction ks arbitrary: fr calls)
  case Nil
  then show ?case by simp
next
  case (Cons k ks)
  from Cons.prems(1) obtain fr1 calls1 where
    step: "slab_single_body m p deep (expand_dims_last data) fr calls (int k) = (Inr fr1, calls1)"
    and rest: "for_range (slab_single_body m p deep (expand_dims_last data)) (map int ks) fr1 calls1 =
                 (Inr fr', calls')"
    by (auto split: sum.splits prod.splits)
  from Cons.prems(2) have k: "k < Z" and ks: "list_all (\<lambda>k. k < Z) ks" by simp_all
  note st = slab_single_body_step[OF step vol k Cons.prems(3), where s=s and x=x and y=y and c=c]
  from st have fr1: "shape fr1 = [X, Y, Z, C]" by simp
  note ih = Cons.IH[OF rest ks fr1]
  have keep: "elems fr1 [x, y, s, c] = elems fr [x, y, s, c]"
  proof (cases "s = k")
    case True
    with empty st show ?thesis by simp
  next
    case False
    with st show ?thesis by simp
  qed
  show ?case
  proof (cases "\<exists>x<X. \<exists>y<Y. float_tenth (dtype data) < elems data [x, y, k]")
    case True
    with st ih keep show ?thesis by simp
  next
    case False
    with st ih keep show ?thesis by simp
  qed
qed

lemma py_range_nat: "py_range 0 (int n) = map int [0..<n]"
  by (simp add: py_range_def)

text \<open>
  Slab mode, sliding window, slab size 1, on a three-dimensional volume. The slices the loop
  takes are those of axis 2. The test compares in the floating type of the volume: a slice
  is skipped when none of its voxels is above the value of that type nearest to 0.1. The
  entries of a skipped slice are the 0 they were created with, and the calls of the run are
  exactly the inputs reshaped from the slices that are not skipped, in order.
\<close>

lemma axis2_slices_skipped:
  assumes run: "run_predictions m data parameters = ((Inr r, calls), parameters')"
    and mode: "new_axial_size parameters = Some [a, b]"
      "\<not> predictions_non_overlapping parameters" "training_slab_size parameters = 1"
    and vol: "shape data = [X, Y, Z]"
    and empty: "\<not> (\<exists>x<X. \<exists>y<Y. float_tenth (dtype data) < elems data [x, y, s])"
  shows "elems r [x, y, s, c] = 0 \<and>
         map Inr calls =
           map (\<lambda>k. ebind (getitem (expand_dims_last data) [Full, Full, Idx (int k), Idx 0])
                  (\<lambda>slab. ebind (axial_at parameters' 0) (\<lambda>n0. ebind (axial_at parameters' 1)
                     (\<lambda>n1. np_reshape slab [1, n0, n1, 1]))))
             (filter (\<lambda>k. \<exists>x<X. \<exists>y<Y. float_tenth (dtype data) < elems data [x, y, k]) [0..<Z])"
proof -
  let ?deep = "training_deep_supervision parameters"
  from run mode(1) have slab: "run_predictions_slabbed m data parameters ?deep =
      ((Inr r, calls), parameters')"
    by (simp add: run_predictions_def)
  then have tried: "slabbed_try m data parameters' ?deep = (Inr r, calls)"
    and sw: "swap_axial parameters = Inr parameters'"
    unfolding run_predictions_slabbed_def
    by (auto split: sum.splits prod.splits)
  from sw mode have mode': "\<not> predictions_non_overlapping parameters'"
      "training_slab_size parameters' = 1"
    by (auto simp: swap_axial_def split: if_splits)
  from tried mode' vol obtain fr where
    z: "np_zeros (map int (shape data) @ [training_nb_classes parameters']) = Inr fr"
    and loop: "for_range (slab_single_body m parameters' ?deep (expand_dims_last data))
                 (py_range 0 (int Z)) fr [] = (Inr r, calls)"
    unfolding slabbed_try_def Let_def slab_sliding_single_def
    by (auto simp: ebind_Inr list_at_def expand_dims_last_def split: sum.splits prod.splits if_splits)
  from z vol have fr: "shape fr = [X, Y, Z, nat (training_nb_classes parameters')]"
    and zero: "elems fr [x, y, s, c] = 0"
    by (auto simp: np_zeros_def split: if_splits)
  have "list_all (\<lambda>k. k < Z) [0..<Z]" by (simp add: list_all_iff)
  from slab_single_loop[OF vol empty loop[unfolded py_range_nat] this fr, of x y c] zero
  show ?thesis by simp
qed

section \<open>Overlapping patches\<close>

lemma resolve1_window:
  "l + p \<le> n \<Longrightarrow> resolve1 n (Slice (Some (int l)) (Some (int l + int p))) = Inr (RSlice l p)"
  by (simp add: py_clip_def Let_def nat_add_distrib)

lemma resolve_patch:
  assumes "lx + px \<le> X" "ly + py \<le> Y" "lz + pz \<le> Z"
  shows "resolve (X # Y # Z # rest)
           (patch_selector (int lx, int lx + int px) (int ly, int ly + int py) (int lz, int lz + int pz) @ sel) =
         ebind (resolve rest sel) (\<lambda>rs. Inr (RSlice lx px # RSlice ly py # RSlice lz pz # rs))"
  using assms
  by (cases "resolve rest sel") (simp_all add: patch_selector_def resolve1_window del: resolve1.simps)

lemma of_base_in_range:
  "of_base rs bi = Some vi \<Longrightarrow> list_all2 (\<lambda>i s. i < s) vi (view_shape rs)"
proof (induction rs bi arbitrary: vi rule: of_base.induct)
  case (3 s l rs b bs)
  then show ?case by (auto split: if_splits)
qed (auto split: if_splits)

lemma to_base_of_base: "of_base rs bi = Some vi \<Longrightarrow> to_base rs vi = bi"
proof (induction rs bi arbitrary: vi rule: of_base.induct)
  case (3 s l rs b bs)
  then show ?case by (auto split: if_splits)
qed (auto split: if_splits)

lemma map2_in_range:
  fixes ti :: "nat list"
  shows "list_all2 (\<lambda>i s. i < s) ti ss \<Longrightarrow> map2 (\<lambda>s i. if s = Suc 0 then 0 else i) ss ti = ti"
  by (induction ti ss rule: list_all2_induct) auto

lemma bcast_index_same:
  "list_all2 (\<lambda>i s. i < s) ti ss \<Longrightarrow> bcast_index ss ti = ti"
  by (frule list_all2_lengthD) (simp add: bcast_index_def map2_in_range)

lemma bcast_index_lead:
  "list_all2 (\<lambda>i s. i < s) ti ss \<Longrightarrow> bcast_index (1 # ss) ti = 0 # ti"
  by (frule list_all2_lengthD) (simp add: bcast_index_def map2_in_range)

lemma bcast_index_drop:
  "list_all2 (\<lambda>i s. i < s) ti ss \<Longrightarrow> bcast_index ss (0 # ti) = ti"
  by (frule list_all2_lengthD) (simp add: bcast_index_def map2_in_range)

lemma bshape_same: "bshape xs xs = Some xs"
  by (induction xs) auto

lemma bshape_longer: "bshape (xs @ ys) xs = Some (xs @ ys)"
  by (induction xs) (auto, cases ys, auto)

lemma broadcast_same: "broadcast_shapes sh sh = Some sh"
  by (simp add: broadcast_shapes_def bshape_same)

lemma broadcast_lead: "broadcast_shapes (1 # sh) sh = Some (1 # sh)"
  by (simp add: broadcast_shapes_def bshape_longer)

lemma strip_ones_same: "strip_ones (length sh) sh = sh"
  by (cases sh) auto

lemma assignable_same: "assignable sh sh"
  by (simp add: assignable_def strip_ones_same list_all2_same)

lemma assignable_lead: "assignable (1 # sh) sh"
  by (simp add: assignable_def strip_ones_same list_all2_same)

lemma to_base_full: "length vi = length sh \<Longrightarrow> to_base (map (RSlice 0) sh) vi = vi"
  by (induction sh arbitrary: vi) (auto simp: length_Suc_conv)


lemma patch_apply_general:
  fixes d fr :: ndarray and lx ly lz px py pz C :: nat
  defines "patch \<equiv> \<lparr>shape = [px, py, pz, 1],
             elems = (\<lambda>vi. elems d (to_base [RSlice lx px, RSlice ly py, RSlice lz pz, RSlice 0 1] vi)),
             dtype = dtype d\<rparr>"
    and "rs \<equiv> [RSlice lx px, RSlice ly py, RSlice lz pz, RSlice 0 C]"
  assumes d: "shape d = [X, Y, Z, 1]" and fr: "shape fr = [X, Y, Z, C]"
    and fit: "lx + px \<le> X" "ly + py \<le> Y" "lz + pz \<le> Z"
    and m: "m (expand_dims_first patch) = Some (out # rest)"
    and out: "shape out = [1, px, py, pz, C]"
  shows "\<exists>fr'. patch_apply m d deep (int lx, int lx + int px) (int ly, int ly + int py)
               (int lz, int lz + int pz) fr calls = (Inr fr', calls @ [expand_dims_first patch]) \<and>
           shape fr' = shape fr \<and>
           (\<forall>bi. elems fr' bi =
              (case of_base rs bi of None \<Rightarrow> elems fr bi
               | Some vi \<Rightarrow> max (elems out (0 # vi)) (elems fr bi)))"
proof -
  let ?sel = "patch_selector (int lx, int lx + int px) (int ly, int ly + int py) (int lz, int lz + int pz)"
  let ?sh = "[px, py, pz, C]"
  have g1: "getitem d ?sel = Inr patch"
    using fit resolve_patch[where sel="[]" and rest="[1]", OF fit]
    by (simp add: getitem_def d patch_def)
  have inv: "invoke m (expand_dims_first patch) calls =
      (Inr (Lst (out # rest)), calls @ [expand_dims_first patch])"
    by (simp add: invoke_def m)
  have rsv: "resolve (shape fr) (?sel @ [Full]) = Inr rs"
    using resolve_patch[where sel="[Full]" and rest="[C]", OF fit]
    by (simp add: fr Let_def rs_def)
  have vs: "view_shape rs = ?sh" by (simp add: rs_def)
  define cur where "cur = \<lparr>shape = ?sh, elems = (\<lambda>vi. elems fr (to_base rs vi)), dtype = dtype fr\<rparr>"
  have g2: "getitem fr (?sel @ [Full]) = Inr cur"
    by (simp add: getitem_def rsv vs cur_def)
  define val where "val = (\<lambda>vi. max (elems out (0 # vi)) (elems fr (to_base rs vi)))"
  have "\<exists>comb. ebind (if deep then map_sum id Arr (py_getitem0 (Lst (out # rest))) else Inr (Lst (out # rest)))
          (\<lambda>pred. ebind (py_getitem0 pred) (\<lambda>p0. np_maximum p0 cur)) = Inr comb \<and>
        assignable (shape comb) ?sh \<and>
        (\<forall>vi. list_all2 (\<lambda>i s. i < s) vi ?sh \<longrightarrow> elems comb (bcast_index (shape comb) vi) = val vi)"
  proof (cases deep)
    case True
    define p0 where "p0 = \<lparr>shape = ?sh,
        elems = (\<lambda>vi. elems out (to_base (RIdx 0 # map (RSlice 0) ?sh) vi)), dtype = dtype out\<rparr>"
    have p0: "py_getitem0 (Arr out) = Inr p0"
      by (simp add: py_getitem0_def getitem_def out p0_def)
    define comb where "comb = \<lparr>shape = ?sh,
        elems = (\<lambda>i. max (elems p0 (bcast_index ?sh i)) (elems cur (bcast_index ?sh i))),
        dtype = promote (dtype p0) (dtype cur)\<rparr>"
    have mx: "np_maximum p0 cur = Inr comb"
      by (simp add: np_maximum_def p0_def cur_def comb_def broadcast_same)
    have "elems comb (bcast_index (shape comb) vi) = val vi"
      if r: "list_all2 (\<lambda>i s. i < s) vi ?sh" for vi
    proof -
      from r have len: "length vi = 4" by (auto dest: list_all2_lengthD)
      then obtain a b c e where vi: "vi = [a, b, c, e]"
        by (auto simp: length_Suc_conv eval_nat_numeral)
      from r have b: "bcast_index ?sh vi = vi" by (rule bcast_index_same)
      show ?thesis
        by (simp add: comb_def b val_def p0_def cur_def) (simp add: vi)
    qed
    with mx True p0 show ?thesis
      by (simp add: py_getitem0_def comb_def assignable_same)
  next
    case False
    define comb where "comb = \<lparr>shape = 1 # ?sh,
        elems = (\<lambda>i. max (elems out (bcast_index (1 # ?sh) i)) (elems cur (bcast_index ?sh i))),
        dtype = promote (dtype out) (dtype cur)\<rparr>"
    have mx: "np_maximum out cur = Inr comb"
      using broadcast_lead[of ?sh]
      by (simp add: np_maximum_def out cur_def comb_def)
    have "elems comb (bcast_index (shape comb) vi) = val vi"
      if r: "list_all2 (\<lambda>i s. i < s) vi ?sh" for vi
    proof -
      from r have b1: "bcast_index (1 # ?sh) vi = 0 # vi" by (rule bcast_index_lead)
      from r have "list_all2 (\<lambda>i s. i < s) (0 # vi) (1 # ?sh)" by simp
      then have b2: "bcast_index (1 # ?sh) (0 # vi) = 0 # vi" by (rule bcast_index_same)
      from r have b3: "bcast_index ?sh (0 # vi) = vi" by (rule bcast_index_drop)
      show ?thesis
        unfolding comb_def val_def cur_def
        by (simp only: ndarray.simps b1 b2 b3)
    qed
    with mx False show ?thesis
      using assignable_lead[of ?sh]
      by (simp add: py_getitem0_def comb_def)
  qed
  then obtain comb where
    comb: "ebind (if deep then map_sum id Arr (py_getitem0 (Lst (out # rest))) else Inr (Lst (out # rest)))
          (\<lambda>pred. ebind (py_getitem0 pred) (\<lambda>p0. np_maximum p0 cur)) = Inr comb"
    and asg: "assignable (shape comb) ?sh"
    and cv: "\<And>vi. list_all2 (\<lambda>i s. i < s) vi ?sh \<Longrightarrow> elems comb (bcast_index (shape comb) vi) = val vi"
    by blast
  define fr' where "fr' = fr\<lparr>elems := (\<lambda>bi. case of_base rs bi of None \<Rightarrow> elems fr bi
                                | Some vi \<Rightarrow> elems comb (bcast_index (shape comb) vi))\<rparr>"
  have st: "setitem fr (?sel @ [Full]) comb = Inr fr'"
    by (simp add: setitem_def rsv vs asg fr'_def)
  from comb obtain pred p0 where
    pr: "(if deep then map_sum id Arr (py_getitem0 (Lst (out # rest))) else Inr (Lst (out # rest))) = Inr pred"
    and pp: "py_getitem0 pred = Inr p0" and mx: "np_maximum p0 cur = Inr comb"
    by (auto simp: ebind_Inr)
  have run: "patch_apply m d deep (int lx, int lx + int px) (int ly, int ly + int py)
               (int lz, int lz + int pz) fr calls = (Inr fr', calls @ [expand_dims_first patch])"
    unfolding patch_apply_def
    by (simp add: g1 inv pr pp g2 mx st)
  have "elems fr' bi = (case of_base rs bi of None \<Rightarrow> elems fr bi
               | Some vi \<Rightarrow> max (elems out (0 # vi)) (elems fr bi))" for bi
  proof (cases "of_base rs bi")
    case None
    then show ?thesis by (simp add: fr'_def)
  next
    case (Some vi)
    from of_base_in_range[OF Some] have "list_all2 (\<lambda>i s. i < s) vi ?sh" by (simp add: vs)
    from cv[OF this] to_base_of_base[OF Some] Some show ?thesis
      by (simp add: fr'_def val_def)
  qed
  with run show ?thesis by (auto simp: fr'_def)
qed

lemma for_range_append:
  "for_range body (xs @ ys) s c =
     (case for_range body xs s c of
        (Inl e, c') \<Rightarrow> (Inl e, c')
      | (Inr s', c') \<Rightarrow> for_range body ys s' c')"
  by (induction xs arbitrary: s c) (auto split: sum.splits prod.splits)

lemma for_range_concat_map:
  "for_range body (concat (map f xs)) s c = for_range (\<lambda>s c x. for_range body (f x) s c) xs s c"
  by (induction xs arbitrary: s c) (auto simp: for_range_append split: sum.splits prod.splits)

lemma for_range_map:
  "for_range body (map g xs) s c = for_range (\<lambda>s c x. body s c (g x)) xs s c"
  by (induction xs arbitrary: s c) (auto split: sum.splits prod.splits)

lemma for_range_cong:
  "(\<And>x s c. x \<in> set xs \<Longrightarrow> body s c x = body' s c x) \<Longrightarrow>
     for_range body xs s c = for_range body' xs s c"
  by (induction xs arbitrary: s c) (auto split: sum.splits prod.splits)

lemma for_range_single: "for_range body [x] s c = body s c x"
  by (auto split: sum.splits prod.splits)

lemma product_concat_map:
  "List.product (concat (map f xs)) ys = concat (map (\<lambda>x. List.product (f x) ys) xs)"
  by (induction xs) (simp_all add: List.product_concat_map)

lemma product_single: "List.product [a] ys = map (Pair a) ys"
  by simp

lemma Max_insert_max:
  fixes u :: "'a::linorder"
  assumes "finite S"
  shows "Max (insert (max u v) S) = Max (insert v (insert u S))"
proof (cases "S = {}")
  case True
  then show ?thesis by (simp add: max.commute)
next
  case False
  with assms show ?thesis by (simp add: max.commute max.left_commute)
qed

lemma fold_max_set:
  fixes f :: "'b \<Rightarrow> 'a::linorder"
  shows "fold (\<lambda>b a. if P b then max (f b) a else a) qs a0 = Max (insert a0 (f ` {b \<in> set qs. P b}))"
proof (induction qs arbitrary: a0)
  case Nil
  then show ?case by simp
next
  case (Cons q qs)
  let ?S = "f ` {b \<in> set qs. P b}"
  have fin: "finite ?S" by simp
  show ?case
  proof (cases "P q")
    case True
    then have "{b \<in> set (q # qs). P b} = insert q {b \<in> set qs. P b}" by auto
    then have "insert a0 (f ` {b \<in> set (q # qs). P b}) = insert a0 (insert (f q) ?S)" by simp
    moreover have "Max (insert (max (f q) a0) ?S) = Max (insert a0 (insert (f q) ?S))"
      using fin by (rule Max_insert_max)
    ultimately show ?thesis using True Cons.IH[of "max (f q) a0"] by simp
  next
    case False
    then have "{b \<in> set (q # qs). P b} = {b \<in> set qs. P b}" by auto
    with False Cons.IH[of a0] show ?thesis by simp
  qed
qed

lemma patch_apply_step:
  fixes d fr :: ndarray
  assumes d: "shape d = [X, Y, Z, 1]" and fr: "shape fr = [X, Y, Z, C]"
    and fit: "fits px X bx" "fits py Y by" "fits pz Z bz"
    and model: "\<And>inp. \<exists>out rest. m inp = Some (out # rest) \<and> shape out = [1, px, py, pz, C]"
  shows "\<exists>fr' calls'. patch_apply m d deep bx by bz fr calls = (Inr fr', calls') \<and>
           shape fr' = shape fr \<and>
           (\<forall>x y z c. c < C \<longrightarrow> elems fr' [x, y, z, c] =
              (if covers (bx, by, bz) x y z
               then max (patch_prediction m d (bx, by, bz) x y z c) (elems fr [x, y, z, c])
               else elems fr [x, y, z, c]))"
proof -
  from fit obtain lx ly lz where
    b: "bx = (int lx, int lx + int px)" "by = (int ly, int ly + int py)" "bz = (int lz, int lz + int pz)"
    and le: "lx + px \<le> X" "ly + py \<le> Y" "lz + pz \<le> Z"
    unfolding fits_def by blast
  let ?patch = "\<lparr>shape = [px, py, pz, 1],
             elems = (\<lambda>vi. elems d (to_base [RSlice lx px, RSlice ly py, RSlice lz pz, RSlice 0 1] vi)),
             dtype = dtype d\<rparr>"
  from model[of "expand_dims_first ?patch"] obtain out rest where
    m: "m (expand_dims_first ?patch) = Some (out # rest)" and out: "shape out = [1, px, py, pz, C]"
    by blast
  from patch_apply_general[where m=m and d=d and fr=fr and lx=lx and ly=ly and lz=lz
      and px=px and py=py and pz=pz and out=out and rest=rest and deep=deep and calls=calls
      and X=X and Y=Y and Z=Z and C=C, OF d fr le m out] obtain fr' where
    run: "patch_apply m d deep bx by bz fr calls = (Inr fr', calls @ [expand_dims_first ?patch])"
    and sh: "shape fr' = shape fr"
    and el: "\<And>bi. elems fr' bi =
              (case of_base [RSlice lx px, RSlice ly py, RSlice lz pz, RSlice 0 C] bi of
                 None \<Rightarrow> elems fr bi
               | Some vi \<Rightarrow> max (elems out (0 # vi)) (elems fr bi))"
    unfolding b by blast
  have g: "getitem d (patch_selector bx by bz) = Inr ?patch"
    unfolding b using resolve_patch[where sel="[]" and rest="[1]", OF le]
    by (simp add: getitem_def d)
  have pp: "patch_prediction m d (bx, by, bz) x y z c = elems out [0, x - lx, y - ly, z - lz, c]"
    for x y z c
    using m g[unfolded b] by (simp add: patch_prediction_def b)
  have cv: "covers (bx, by, bz) x y z \<longleftrightarrow>
      lx \<le> x \<and> x < lx + px \<and> ly \<le> y \<and> y < ly + py \<and> lz \<le> z \<and> z < lz + pz" for x y z
    by (auto simp: covers_def b)
  have "elems fr' [x, y, z, c] =
              (if covers (bx, by, bz) x y z
               then max (patch_prediction m d (bx, by, bz) x y z c) (elems fr [x, y, z, c])
               else elems fr [x, y, z, c])" if "c < C" for x y z c
    using that by (simp add: el pp cv)
  with run sh show ?thesis by blast
qed

lemma patch_sweep_fold:
  fixes d :: ndarray
  assumes d: "shape d = [X, Y, Z, 1]"
    and model: "\<And>inp. \<exists>out rest. m inp = Some (out # rest) \<and> shape out = [1, px, py, pz, C]"
  shows "list_all (\<lambda>b. fits px X (fst b) \<and> fits py Y (fst (snd b)) \<and> fits pz Z (snd (snd b))) qs \<Longrightarrow>
         shape fr = [X, Y, Z, C] \<Longrightarrow>
         \<exists>fr' calls'. patch_sweep m d deep qs fr calls = (Inr fr', calls') \<and>
           shape fr' = [X, Y, Z, C] \<and>
           (\<forall>x y z c. c < C \<longrightarrow> elems fr' [x, y, z, c] =
              fold (\<lambda>b a. if covers b x y z then max (patch_prediction m d b x y z c) a else a)
                qs (elems fr [x, y, z, c]))"
proof (induction qs arbitrary: fr calls)
  case Nil
  then show ?case by (simp add: patch_sweep_def)
next
  case (Cons q qs)
  obtain bx "by" bz where q: "q = (bx, by, bz)" by (cases q) auto
  from Cons.prems(1) have fit: "fits px X bx" "fits py Y by" "fits pz Z bz"
    and rest: "list_all (\<lambda>b. fits px X (fst b) \<and> fits py Y (fst (snd b)) \<and> fits pz Z (snd (snd b))) qs"
    by (simp_all add: q)
  have "\<exists>fr' calls'. patch_apply m d deep bx by bz fr calls = (Inr fr', calls') \<and>
           shape fr' = shape fr \<and>
           (\<forall>x y z c. c < C \<longrightarrow> elems fr' [x, y, z, c] =
              (if covers (bx, by, bz) x y z
               then max (patch_prediction m d (bx, by, bz) x y z c) (elems fr [x, y, z, c])
               else elems fr [x, y, z, c]))"
    by (rule patch_apply_step[OF d Cons.prems(2) fit]) (rule model)
  then obtain fr1 calls1 where
    step: "patch_apply m d deep bx by bz fr calls = (Inr fr1, calls1)"
    and sh1: "shape fr1 = [X, Y, Z, C]"
    and el1: "\<And>x y z c. c < C \<Longrightarrow> elems fr1 [x, y, z, c] =
              (if covers q x y z
               then max (patch_prediction m d q x y z c) (elems fr [x, y, z, c])
               else elems fr [x, y, z, c])"
    unfolding q using Cons.prems(2) by auto
  from Cons.IH[OF rest sh1, where calls=calls1] obtain fr' calls' where
    run: "patch_sweep m d deep qs fr1 calls1 = (Inr fr', calls')"
    and sh: "shape fr' = [X, Y, Z, C]"
    and el: "\<And>x y z c. c < C \<Longrightarrow> elems fr' [x, y, z, c] =
              fold (\<lambda>b a. if covers b x y z then max (patch_prediction m d b x y z c) a else a)
                qs (elems fr1 [x, y, z, c])"
    by blast
  have "patch_sweep m d deep (q # qs) fr calls = (Inr fr', calls')"
    using step run by (simp add: patch_sweep_def q)
  moreover have "elems fr' [x, y, z, c] =
      fold (\<lambda>b a. if covers b x y z then max (patch_prediction m d b x y z c) a else a)
        (q # qs) (elems fr [x, y, z, c])" if "c < C" for x y z c
    using el[OF that] el1[OF that] by simp
  ultimately show ?case using sh by blast
qed

lemma py_range_nonneg: "i \<in> set (py_range 0 n) \<Longrightarrow> 0 \<le> i"
  by (auto simp: py_range_def)

lemma patch_bounds_fits:
  assumes i: "0 \<le> i" and p: "0 < p" and off: "off < p" and n: "p \<le> int n"
    and b: "patch_bounds i p off (int n) = Some b"
  shows "fits (nat p) n b"
proof (cases "int n \<le> i * (p - off) + p")
  case True
  with b n have "b = (int n - p, int n)"
    by (auto simp: patch_bounds_def Let_def split: if_splits)
  with n p show ?thesis
    unfolding fits_def by (intro exI[of _ "nat (int n - p)"]) auto
next
  case False
  with b have bb: "b = (i * (p - off), i * (p - off) + p)"
    by (auto simp: patch_bounds_def Let_def split: if_splits)
  from i off have nn: "0 \<le> i * (p - off)" by simp
  with False p bb show ?thesis
    unfolding fits_def by (intro exI[of _ "nat (i * (p - off))"]) auto
qed

lemma axis_bounds_concrete:
  assumes "shape d = [X, Y, Z, 1]" "ps = [p0, p1, p2]" "po = [o0, o1, o2]"
  shows "axis_bounds d ps po 0 i = Inr (patch_bounds i p0 o0 (int X))"
    and "axis_bounds d ps po 1 i = Inr (patch_bounds i p1 o1 (int Y))"
    and "axis_bounds d ps po 2 i = Inr (patch_bounds i p2 o2 (int Z))"
  using assms by (simp_all add: axis_bounds_def list_at_def)

lemma grid_range_concrete:
  assumes "shape d = [X, Y, Z, 1]" "ps = [p0, p1, p2]" "po = [o0, o1, o2]"
    and "o0 < p0" "o1 < p1" "o2 < p2"
  shows "grid_range d ps po 0 = Inr (py_range 0 (- ((- int X) div (p0 - o0))))"
    and "grid_range d ps po 1 = Inr (py_range 0 (- ((- int Y) div (p1 - o1))))"
    and "grid_range d ps po 2 = Inr (py_range 0 (- ((- int Z) div (p2 - o2))))"
  using assms by (simp_all add: grid_range_def list_at_def py_ceil_div_def)

lemma axis_positions_fit:
  assumes d: "shape d = [X, Y, Z, 1]" and ps: "ps = [p0, p1, p2]" and po: "po = [o0, o1, o2]"
    and off: "o0 < p0" "o1 < p1" "o2 < p2" and pos: "0 < p0" "0 < p1" "0 < p2"
    and big: "p0 \<le> int X" "p1 \<le> int Y" "p2 \<le> int Z"
  shows "b \<in> set (axis_positions d ps po 0) \<Longrightarrow> fits (nat p0) X b"
    and "b \<in> set (axis_positions d ps po 1) \<Longrightarrow> fits (nat p1) Y b"
    and "b \<in> set (axis_positions d ps po 2) \<Longrightarrow> fits (nat p2) Z b"
  unfolding axis_positions_def grid_range_concrete[OF d ps po off] axis_bounds_concrete[OF d ps po]
  using off pos big
  by (auto split: option.splits dest!: py_range_nonneg intro: patch_bounds_fits)

lemma patch_sweep_Nil: "patch_sweep m d deep [] fr calls = (Inr fr, calls)"
  by (simp add: patch_sweep_def)

lemma patch_sweep_single:
  "patch_sweep m d deep [(bx, by, bz)] fr calls = patch_apply m d deep bx by bz fr calls"
  by (simp only: patch_sweep_def for_range_single fst_conv snd_conv)

lemma patch_sweep_concat:
  "patch_sweep m d deep (concat (map f xs)) fr calls =
     for_range (\<lambda>s c x. patch_sweep m d deep (f x) s c) xs fr calls"
  unfolding patch_sweep_def by (rule for_range_concat_map)

lemma product_Nil_right: "List.product A [] = []"
  by (induction A) simp_all

lemma concat_map_Nil: "concat (map (\<lambda>z. []) zs) = []"
  by (induction zs) simp_all

lemma product_short_concat_inner:
  assumes "length A \<le> 1" "length B \<le> 1"
  shows "List.product A (List.product B (concat (map f zs))) =
           concat (map (\<lambda>z. List.product A (List.product B (f z))) zs)"
proof -
  from assms consider "A = []" | "B = []" | a b where "A = [a]" "B = [b]"
    by (cases A; cases B) auto
  then show ?thesis
  proof cases
    case 1
    then show ?thesis by simp
  next
    case 2
    then show ?thesis by (simp add: product_Nil_right concat_map_Nil)
  next
    case 3
    then show ?thesis by (simp add: map_concat comp_def)
  qed
qed

lemma product_short_concat_middle:
  assumes "length A \<le> 1"
  shows "List.product A (List.product (concat (map f ys)) C) =
           concat (map (\<lambda>y. List.product A (List.product (f y) C)) ys)"
proof (cases A)
  case Nil
  then show ?thesis by simp
next
  case (Cons a rest)
  with assms have "A = [a]" by simp
  then show ?thesis by (simp add: product_concat_map map_concat comp_def)
qed

lemma nested_loops_are_sweep:
  assumes d: "shape d = [X, Y, Z, 1]" and ps: "ps = [p0, p1, p2]" and po: "po = [o0, o1, o2]"
    and off: "o0 < p0" "o1 < p1" "o2 < p2"
    and xs: "grid_range d ps po 0 = Inr xs"
  shows "for_range (patch_loop_x m d ps po deep) xs fr calls =
           patch_sweep m d deep (patch_positions d ps po) fr calls"
proof -
  define opt where "opt = (\<lambda>k i. case axis_bounds d ps po k i of
      Inl e \<Rightarrow> [] | Inr None \<Rightarrow> [] | Inr (Some b) \<Rightarrow> [b])"
  note ab = axis_bounds_concrete[OF d ps po, unfolded One_nat_def]
  note gr = grid_range_concrete[OF d ps po off, unfolded One_nat_def]
  from gr(2) obtain ys where ys: "grid_range d ps po (Suc 0) = Inr ys" by blast
  from gr(3) obtain zs where zs: "grid_range d ps po 2 = Inr zs" by blast
  have short: "length (opt k i) \<le> 1" for k i
    by (simp add: opt_def split: sum.splits option.splits)
  have A: "axis_positions d ps po 0 = concat (map (opt 0) xs)"
    and B: "axis_positions d ps po (Suc 0) = concat (map (opt (Suc 0)) ys)"
    and C: "axis_positions d ps po 2 = concat (map (opt 2) zs)"
    by (simp_all add: axis_positions_def xs ys zs opt_def)
  have body: "patch_body m d ps po deep x y =
      (\<lambda>s c z. patch_sweep m d deep (List.product (opt 0 x) (List.product (opt (Suc 0) y) (opt 2 z))) s c)"
    for x y
    by (intro ext) (simp add: patch_body_def opt_def ab patch_sweep_Nil patch_sweep_single
        split: option.splits)
  have zloop: "patch_loop_y m d ps po deep x =
      (\<lambda>s c y. patch_sweep m d deep
         (List.product (opt 0 x) (List.product (opt (Suc 0) y) (concat (map (opt 2) zs)))) s c)"
    for x
    by (intro ext) (simp add: patch_loop_y_def zs body product_short_concat_inner[OF short short]
        patch_sweep_concat)
  have yloop: "patch_loop_x m d ps po deep =
      (\<lambda>s c x. patch_sweep m d deep (List.product (opt 0 x)
        (List.product (concat (map (opt (Suc 0)) ys)) (concat (map (opt 2) zs)))) s c)"
    by (intro ext) (simp add: patch_loop_x_def ys zloop product_short_concat_middle[OF short]
        patch_sweep_concat)
  have "patch_positions d ps po =
      concat (map (\<lambda>x. List.product (opt 0 x)
        (List.product (concat (map (opt (Suc 0)) ys)) (concat (map (opt 2) zs)))) xs)"
    unfolding patch_positions_def One_nat_def A B C by (rule product_concat_map)
  then show ?thesis by (simp only: patch_sweep_concat yloop)
qed

lemma strip_padding_elems:
  assumes fr: "shape fr = [nat e0 + X + nat e1, nat e2 + Y + nat e3, nat e4 + Z + nat e5, C]"
    and nonneg: "0 \<le> e0" "0 \<le> e1" "0 \<le> e2" "0 \<le> e3" "0 \<le> e4" "0 \<le> e5"
  shows "\<exists>r. strip_padding fr (e0, e1, e2, e3, e4, e5) = Inr r \<and> shape r = [X, Y, Z, C] \<and>
           (\<forall>x y z c. elems r [x, y, z, c] = elems fr [nat e0 + x, nat e2 + y, nat e4 + z, c])"
proof -
  have start: "\<And>a n b. 0 \<le> a \<Longrightarrow> py_clip (nat a + n + nat b) a = nat a"
    by (simp add: py_clip_def)
  have stop: "\<And>a n b. 0 \<le> a \<Longrightarrow> 0 \<le> b \<Longrightarrow>
      py_clip (nat a + n + nat b) (int (nat a + n + nat b) - b) - nat a = n"
    by (simp add: py_clip_def)
  show ?thesis
    using nonneg
    by (simp add: strip_padding_def list_at_def fr getitem_def Let_def stop start
        del: of_nat_add)
qed

lemma padding_patchwise_big:
  assumes pad: "padding_for_inference_both_ends_patchwise data [p0, p1, p2] =
                  Inr (d', e0, e1, e2, e3, e4, e5)"
    and vol: "shape data = [X, Y, Z]"
  shows "p0 \<le> int (nat e0 + X + nat e1) \<and> p1 \<le> int (nat e2 + Y + nat e3) \<and>
         p2 \<le> int (nat e4 + Z + nat e5)"
proof -
  define d0 where "d0 = nat (p0 - int X)"
  define d1 where "d1 = nat (p1 - int Y)"
  define d2 where "d2 = nat (p2 - int Z)"
  from pad vol have
    e: "e0 = int (d0 div 2)" "e1 = int (d0 - d0 div 2)" "e2 = int (d1 div 2)"
      "e3 = int (d1 - d1 div 2)" "e4 = int (d2 div 2)" "e5 = int (d2 - d2 div 2)"
    unfolding padding_for_inference_both_ends_patchwise_def Let_def d0_def d1_def d2_def
    by simp_all
  have "d0 div 2 + (d0 - d0 div 2) = d0" "d1 div 2 + (d1 - d1 div 2) = d1"
    "d2 div 2 + (d2 - d2 div 2) = d2" by arith+
  moreover have "p0 \<le> int (X + d0)" "p1 \<le> int (Y + d1)" "p2 \<le> int (Z + d2)"
    by (simp_all add: d0_def d1_def d2_def)
  ultimately show ?thesis unfolding e by (simp add: nat_int del: of_nat_diff) 
qed


lemma sweep_then_strip:
  fixes X Y Z C :: nat
  assumes vol: "shape data = [X, Y, Z]"
    and pos: "0 < p0" "0 < p1" "0 < p2" and off: "o0 < p0" "o1 < p1" "o2 < p2"
    and model: "\<And>inp. \<exists>out rest. m inp = Some (out # rest) \<and>
                  shape out = [1, nat p0, nat p1, nat p2, C]"
    and pad: "padding_for_inference_both_ends_patchwise data [p0, p1, p2] =
                Inr (d', l0, t0, l1, t1, l2, t2)"
    and qs: "set qs \<subseteq> set (patch_positions (expand_dims_last d') [p0, p1, p2] [o0, o1, o2])"
  shows "\<exists>fr' calls r.
           patch_sweep m (expand_dims_last d') deep qs
             \<lparr>shape = shape d' @ [C], elems = (\<lambda>idx. 0), dtype = Float64\<rparr> [] = (Inr fr', calls) \<and>
           strip_padding fr' (l0, t0, l1, t1, l2, t2) = Inr r \<and>
           (\<forall>x y z c. c < C \<longrightarrow>
              elems r [x, y, z, c] =
                Max (insert 0
                  ((\<lambda>b. patch_prediction m (expand_dims_last d') b
                          (nat l0 + x) (nat l1 + y) (nat l2 + z) c) `
                   {b \<in> set qs. covers b (nat l0 + x) (nat l1 + y) (nat l2 + z)})))"
proof -
  let ?d = "expand_dims_last d'"
  let ?X = "nat l0 + X + nat t0" and ?Y = "nat l1 + Y + nat t1" and ?Z = "nat l2 + Z + nat t2"
  note sh = padding_patchwise_shape[OF pad vol]
  note big = padding_patchwise_big[OF pad vol]
  have d: "shape ?d = [?X, ?Y, ?Z, 1]"
    using sh by (simp add: expand_dims_last_def)
  have fr0: "shape \<lparr>shape = shape d' @ [C], elems = (\<lambda>idx. 0::real), dtype = Float64\<rparr> = [?X, ?Y, ?Z, C]"
    using sh by simp
  have fit: "list_all (\<lambda>b. fits (nat p0) ?X (fst b) \<and> fits (nat p1) ?Y (fst (snd b)) \<and>
      fits (nat p2) ?Z (snd (snd b))) qs"
    unfolding list_all_iff
  proof
    fix b assume "b \<in> set qs"
    with qs have "b \<in> set (patch_positions ?d [p0, p1, p2] [o0, o1, o2])" by blast
    then have "fst b \<in> set (axis_positions ?d [p0, p1, p2] [o0, o1, o2] 0)"
      "fst (snd b) \<in> set (axis_positions ?d [p0, p1, p2] [o0, o1, o2] 1)"
      "snd (snd b) \<in> set (axis_positions ?d [p0, p1, p2] [o0, o1, o2] 2)"
      by (auto simp: patch_positions_def)
    with axis_positions_fit[OF d refl refl off pos] big
    show "fits (nat p0) ?X (fst b) \<and> fits (nat p1) ?Y (fst (snd b)) \<and>
      fits (nat p2) ?Z (snd (snd b))" by blast
  qed
  from patch_sweep_fold[where m=m and deep=deep and calls="[]", OF d model fit fr0] obtain fr' calls where
    run: "patch_sweep m ?d deep qs \<lparr>shape = shape d' @ [C], elems = (\<lambda>idx. 0), dtype = Float64\<rparr> [] = (Inr fr', calls)"
    and sh': "shape fr' = [?X, ?Y, ?Z, C]"
    and el: "\<And>x y z c. c < C \<Longrightarrow> elems fr' [x, y, z, c] =
              fold (\<lambda>b a. if covers b x y z then max (patch_prediction m ?d b x y z c) a else a)
                qs 0"
    by auto
  from strip_padding_elems[OF sh'] sh obtain r where
    strip: "strip_padding fr' (l0, t0, l1, t1, l2, t2) = Inr r"
    and rel: "\<And>x y z c. elems r [x, y, z, c] = elems fr' [nat l0 + x, nat l1 + y, nat l2 + z, c]"
    by blast
  have "elems r [x, y, z, c] =
                Max (insert 0
                  ((\<lambda>b. patch_prediction m ?d b (nat l0 + x) (nat l1 + y) (nat l2 + z) c) `
                   {b \<in> set qs. covers b (nat l0 + x) (nat l1 + y) (nat l2 + z)}))"
    if "c < C" for x y z c
    unfolding rel el[OF that] by (rule fold_max_set)
  with run strip show ?thesis by blast
qed

text \<open>
  Claim C4, as the spec states it: the final value at a voxel that several patches cover
  is the maximum of the values those patches predicted. With a model that predicts -1
  everywhere, every voxel of the result is 0: the accumulator starts at 0 and takes part
  in the maximum.
\<close>

theorem patch_overlap_counterexample:
  "observed (fst (fst (run_predictions (constant_model (- 1)) (ramp_volume 2 [1, 1, 3])
       (patch_config [1, 1, 2] [0, 0, 1] 1)))) = Inr ([1, 1, 3, 1], [0, 0, 0]) \<and>
   map (map_option (map flat) \<circ> constant_model (- 1))
     (snd (fst (run_predictions (constant_model (- 1)) (ramp_volume 2 [1, 1, 3])
       (patch_config [1, 1, 2] [0, 0, 1] 1)))) =
     [Some [[- 1, - 1]], Some [[- 1, - 1]], Some [[- 1, - 1]]]"
  by code_simp

text \<open>
  Claim C4, amended. Patch mode on a three-dimensional volume, with positive patch
  extents, offsets below them, and a model whose first output has one batch element, the
  extents of the patch and \<open>C\<close> classes; \<open>d'\<close> is the padded volume and \<open>l0, l1, l2\<close> the
  leading pad amounts. The run succeeds, and it is the sweep over the positions of the
  grid followed by the cut of the padding. For every order of processing the positions
  (every list with the same members), the sweep succeeds and the value at every voxel and
  class is the maximum of 0 and the values predicted there by the patches that cover the
  voxel: the same for every order.
\<close>

theorem patch_overlap_maximum:
  fixes X Y Z C :: nat
  assumes mode: "new_axial_size parameters = None"
    and vol: "shape data = [X, Y, Z]"
    and ps: "training_patch_size parameters = [p0, p1, p2]"
    and po: "training_patch_offset parameters = [o0, o1, o2]"
    and nb: "training_nb_classes parameters = int C"
    and pos: "0 < p0" "0 < p1" "0 < p2" and off: "o0 < p0" "o1 < p1" "o2 < p2"
    and model: "\<And>inp. \<exists>out rest. m inp = Some (out # rest) \<and>
                  shape out = [1, nat p0, nat p1, nat p2, C]"
    and pad: "padding_for_inference_both_ends_patchwise data [p0, p1, p2] =
                Inr (d', l0, t0, l1, t1, l2, t2)"
  shows "(\<exists>fr' calls r.
            run_predictions m data parameters = ((Inr r, calls), parameters) \<and>
            patch_sweep m (expand_dims_last d') (training_deep_supervision parameters)
              (patch_positions (expand_dims_last d') [p0, p1, p2] [o0, o1, o2])
              \<lparr>shape = shape d' @ [C], elems = (\<lambda>idx. 0), dtype = Float64\<rparr> [] = (Inr fr', calls) \<and>
            strip_padding fr' (l0, t0, l1, t1, l2, t2) = Inr r) \<and>
         (\<forall>qs. set qs = set (patch_positions (expand_dims_last d') [p0, p1, p2] [o0, o1, o2]) \<longrightarrow>
            (\<exists>fr' calls r.
               patch_sweep m (expand_dims_last d') (training_deep_supervision parameters) qs
                 \<lparr>shape = shape d' @ [C], elems = (\<lambda>idx. 0), dtype = Float64\<rparr> [] = (Inr fr', calls) \<and>
               strip_padding fr' (l0, t0, l1, t1, l2, t2) = Inr r \<and>
               (\<forall>x y z c. c < C \<longrightarrow>
                  elems r [x, y, z, c] =
                    Max (insert 0
                      ((\<lambda>b. patch_prediction m (expand_dims_last d') b
                              (nat l0 + x) (nat l1 + y) (nat l2 + z) c) `
                       {b \<in> set (patch_positions (expand_dims_last d') [p0, p1, p2] [o0, o1, o2]).
                          covers b (nat l0 + x) (nat l1 + y) (nat l2 + z)})))))"
proof
  let ?d = "expand_dims_last d'"
  let ?deep = "training_deep_supervision parameters"
  let ?P = "patch_positions ?d [p0, p1, p2] [o0, o1, o2]"
  let ?fr0 = "\<lparr>shape = shape d' @ [C], elems = (\<lambda>idx. 0::real), dtype = Float64\<rparr>"
  note sh = padding_patchwise_shape[OF pad vol]
  have d: "shape ?d = [nat l0 + X + nat t0, nat l1 + Y + nat t1, nat l2 + Z + nat t2, 1]"
    using sh by (simp add: expand_dims_last_def)
  from sweep_then_strip[where m=m and deep="?deep", OF vol pos off model pad subset_refl] obtain fr' calls r where
    run: "patch_sweep m ?d ?deep ?P ?fr0 [] = (Inr fr', calls)"
    and strip: "strip_padding fr' (l0, t0, l1, t1, l2, t2) = Inr r"
    by blast
  note gr = grid_range_concrete[OF d refl refl off]
  have z: "np_zeros (map int (shape d') @ [training_nb_classes parameters]) = Inr ?fr0"
    by (simp add: np_zeros_def nb list_ex_iff comp_def)
  from gr(1) obtain xs where gx: "grid_range ?d [p0, p1, p2] [o0, o1, o2] 0 = Inr xs" by blast
  have loops: "for_range (patch_loop_x m ?d [p0, p1, p2] [o0, o1, o2] ?deep) xs ?fr0 [] =
      (Inr fr', calls)"
    using nested_loops_are_sweep[OF d refl refl off gx] run by simp
  have "patch_try m data parameters ?deep = (Inr r, calls)"
    unfolding patch_try_def Let_def ps po
    by (simp add: pad z gx loops strip)
  then have "run_predictions m data parameters = ((Inr r, calls), parameters)"
    by (simp add: run_predictions_def mode run_predictions_patch_def)
  with run strip show "\<exists>fr' calls r.
            run_predictions m data parameters = ((Inr r, calls), parameters) \<and>
            patch_sweep m ?d ?deep ?P ?fr0 [] = (Inr fr', calls) \<and>
            strip_padding fr' (l0, t0, l1, t1, l2, t2) = Inr r"
    by blast
next
  show "\<forall>qs. set qs = set (patch_positions (expand_dims_last d') [p0, p1, p2] [o0, o1, o2]) \<longrightarrow>
            (\<exists>fr' calls r.
               patch_sweep m (expand_dims_last d') (training_deep_supervision parameters) qs
                 \<lparr>shape = shape d' @ [C], elems = (\<lambda>idx. 0), dtype = Float64\<rparr> [] = (Inr fr', calls) \<and>
               strip_padding fr' (l0, t0, l1, t1, l2, t2) = Inr r \<and>
               (\<forall>x y z c. c < C \<longrightarrow>
                  elems r [x, y, z, c] =
                    Max (insert 0
                      ((\<lambda>b. patch_prediction m (expand_dims_last d') b
                              (nat l0 + x) (nat l1 + y) (nat l2 + z) c) `
                       {b \<in> set (patch_positions (expand_dims_last d') [p0, p1, p2] [o0, o1, o2]).
                          covers b (nat l0 + x) (nat l1 + y) (nat l2 + z)}))))"
  proof (intro allI impI)
    fix qs
    assume eq: "set qs = set (patch_positions (expand_dims_last d') [p0, p1, p2] [o0, o1, o2])"
    then have sub: "set qs \<subseteq> set (patch_positions (expand_dims_last d') [p0, p1, p2] [o0, o1, o2])"
      by simp
    from sweep_then_strip[where m=m and deep="training_deep_supervision parameters",
        OF vol pos off model pad sub]
    show "\<exists>fr' calls r.
               patch_sweep m (expand_dims_last d') (training_deep_supervision parameters) qs
                 \<lparr>shape = shape d' @ [C], elems = (\<lambda>idx. 0), dtype = Float64\<rparr> [] = (Inr fr', calls) \<and>
               strip_padding fr' (l0, t0, l1, t1, l2, t2) = Inr r \<and>
               (\<forall>x y z c. c < C \<longrightarrow>
                  elems r [x, y, z, c] =
                    Max (insert 0
                      ((\<lambda>b. patch_prediction m (expand_dims_last d') b
                              (nat l0 + x) (nat l1 + y) (nat l2 + z) c) `
                       {b \<in> set (patch_positions (expand_dims_last d') [p0, p1, p2] [o0, o1, o2]).
                          covers b (nat l0 + x) (nat l1 + y) (nat l2 + z)})))"
      unfolding eq .
  qed
qed

theorem patch_overlap_witness:
  "\<exists>r. fst (fst (run_predictions (relabel_model [1, 1, 1, 2, 1]) (ramp_volume 2 [1, 1, 3])
           (patch_config [1, 1, 2] [0, 0, 1] 1))) = Inr r \<and>
       elems r [0, 0, 1, 0] = 2 \<and>
       elems r [0, 0, 1, 0] =
         Max (insert 0
           ((\<lambda>b. patch_prediction (relabel_model [1, 1, 1, 2, 1])
                   (expand_dims_last (pad_axis (pad_axis (pad_axis (ramp_volume 2 [1, 1, 3]) 0 0 0) 1 0 0) 2 0 0))
                   b 0 0 1 0) `
            {b \<in> set (patch_positions
                        (expand_dims_last (pad_axis (pad_axis (pad_axis (ramp_volume 2 [1, 1, 3]) 0 0 0) 1 0 0) 2 0 0))
                        [1, 1, 2] [0, 0, 1]).
               covers b 0 0 1}))"
proof -
  let ?m = "relabel_model [1, 1, 1, 2, 1]"
  let ?V = "ramp_volume 2 [1, 1, 3]"
  let ?cfg = "patch_config [1, 1, 2] [0, 0, 1] 1"
  let ?d' = "pad_axis (pad_axis (pad_axis ?V 0 0 0) 1 0 0) 2 0 0"
  have mode: "new_axial_size ?cfg = None" and ps: "training_patch_size ?cfg = [1, 1, 2]"
    and po: "training_patch_offset ?cfg = [0, 0, 1]" and nb: "training_nb_classes ?cfg = int 1"
    by (simp_all add: patch_config_def)
  have vol: "shape ?V = [1, 1, 3]" by (simp add: ramp_volume_def)
  have model: "\<And>inp. \<exists>out rest. ?m inp = Some (out # rest) \<and>
                  shape out = [1, nat 1, nat 1, nat 2, 1]"
    by (simp add: relabel_model_def)
  have pad: "padding_for_inference_both_ends_patchwise ?V [1, 1, 2] = Inr (?d', 0, 0, 0, 0, 0, 0)"
    by (simp add: padding_for_inference_both_ends_patchwise_def ramp_volume_def)
  note inst = patch_overlap_maximum[where m="?m" and C=1, OF mode vol ps po nb _ _ _ _ _ _ model pad]
  have inst': "(\<exists>fr' calls r.
            run_predictions ?m ?V ?cfg = ((Inr r, calls), ?cfg) \<and>
            patch_sweep ?m (expand_dims_last ?d') (training_deep_supervision ?cfg)
              (patch_positions (expand_dims_last ?d') [1, 1, 2] [0, 0, 1])
              \<lparr>shape = shape ?d' @ [1], elems = (\<lambda>idx. 0), dtype = Float64\<rparr> [] = (Inr fr', calls) \<and>
            strip_padding fr' (0, 0, 0, 0, 0, 0) = Inr r) \<and>
         (\<forall>qs. set qs = set (patch_positions (expand_dims_last ?d') [1, 1, 2] [0, 0, 1]) \<longrightarrow>
            (\<exists>fr' calls r.
               patch_sweep ?m (expand_dims_last ?d') (training_deep_supervision ?cfg) qs
                 \<lparr>shape = shape ?d' @ [1], elems = (\<lambda>idx. 0), dtype = Float64\<rparr> [] = (Inr fr', calls) \<and>
               strip_padding fr' (0, 0, 0, 0, 0, 0) = Inr r \<and>
               (\<forall>x y z c. c < 1 \<longrightarrow>
                  elems r [x, y, z, c] =
                    Max (insert 0
                      ((\<lambda>b. patch_prediction ?m (expand_dims_last ?d') b
                              (nat 0 + x) (nat 0 + y) (nat 0 + z) c) `
                       {b \<in> set (patch_positions (expand_dims_last ?d') [1, 1, 2] [0, 0, 1]).
                          covers b (nat 0 + x) (nat 0 + y) (nat 0 + z)})))))"
    by (rule inst) simp_all
  then obtain fr' calls r where
    run: "run_predictions ?m ?V ?cfg = ((Inr r, calls), ?cfg)"
    and sw: "patch_sweep ?m (expand_dims_last ?d') (training_deep_supervision ?cfg)
              (patch_positions (expand_dims_last ?d') [1, 1, 2] [0, 0, 1])
              \<lparr>shape = shape ?d' @ [1], elems = (\<lambda>idx. 0), dtype = Float64\<rparr> [] = (Inr fr', calls)"
    and st: "strip_padding fr' (0, 0, 0, 0, 0, 0) = Inr r"
    by blast
  from inst' obtain fr2 calls2 r2 where
    sw2: "patch_sweep ?m (expand_dims_last ?d') (training_deep_supervision ?cfg)
              (patch_positions (expand_dims_last ?d') [1, 1, 2] [0, 0, 1])
              \<lparr>shape = shape ?d' @ [1], elems = (\<lambda>idx. 0), dtype = Float64\<rparr> [] = (Inr fr2, calls2)"
    and st2: "strip_padding fr2 (0, 0, 0, 0, 0, 0) = Inr r2"
    and mx: "\<And>x y z c. c < 1 \<Longrightarrow> elems r2 [x, y, z, c] =
                    Max (insert 0
                      ((\<lambda>b. patch_prediction ?m (expand_dims_last ?d') b
                              (nat 0 + x) (nat 0 + y) (nat 0 + z) c) `
                       {b \<in> set (patch_positions (expand_dims_last ?d') [1, 1, 2] [0, 0, 1]).
                          covers b (nat 0 + x) (nat 0 + y) (nat 0 + z)}))"
    by blast
  from sw sw2 st st2 have "r2 = r" by simp
  with mx[of 0 0 0 1] have formula: "elems r [0, 0, 1, 0] =
         Max (insert 0
           ((\<lambda>b. patch_prediction ?m (expand_dims_last ?d') b 0 0 1 0) `
            {b \<in> set (patch_positions (expand_dims_last ?d') [1, 1, 2] [0, 0, 1]). covers b 0 0 1}))"
    by simp
  have "case fst (fst (run_predictions ?m ?V ?cfg)) of Inr r \<Rightarrow> elems r [0, 0, 1, 0] = 2
        | Inl e \<Rightarrow> False"
    by code_simp
  with run have "elems r [0, 0, 1, 0] = 2" by simp
  with run formula show ?thesis by simp
qed

section \<open>The patch grid\<close>

lemma grid_steps: "0 < s \<Longrightarrow> \<lceil>real_of_int n / real_of_int s\<rceil> = - ((- n) div s)"
  by (simp add: ceiling_divide_eq_div)

lemma patch_bounds_spec:
  assumes "0 \<le> i" "off < p"
  shows "(case patch_bounds i p off n of None \<Rightarrow> [] | Some b \<Rightarrow> [b]) =
         (let lo = i * (p - off); hi = lo + p; overflow = hi - n
          in if 0 < overflow
             then (if lo - overflow < 0 then [] else [(lo - overflow, hi - overflow)])
             else [(lo, hi)])"
proof -
  from assms have "0 \<le> i * (p - off)" by simp
  then show ?thesis
    by (auto simp: patch_bounds_def Let_def)
qed

lemma spec_axis_positions_code:
  assumes off: "off < p"
  shows "spec_axis_positions p off n =
         concat (map (\<lambda>i. case patch_bounds i p off n of None \<Rightarrow> [] | Some b \<Rightarrow> [b])
                   (py_range 0 (- ((- n) div (p - off)))))"
proof -
  from off have s: "0 < p - off" by simp
  have "map (\<lambda>i. case patch_bounds i p off n of None \<Rightarrow> [] | Some b \<Rightarrow> [b])
          (py_range 0 (- ((- n) div (p - off)))) =
        map (\<lambda>i. let lo = i * (p - off); hi = lo + p; overflow = hi - n
                 in if 0 < overflow
                    then (if lo - overflow < 0 then [] else [(lo - overflow, hi - overflow)])
                    else [(lo, hi)])
          (py_range 0 (- ((- n) div (p - off))))"
    by (rule map_cong[OF refl]) (rule patch_bounds_spec[OF py_range_nonneg off])
  then show ?thesis
    unfolding spec_axis_positions_def grid_steps[OF s] by (simp only:)
qed

lemma axis_positions_spec:
  assumes d: "shape d = [X, Y, Z, 1]" and ps: "ps = [p0, p1, p2]" and po: "po = [o0, o1, o2]"
    and off: "o0 < p0" "o1 < p1" "o2 < p2"
  shows "axis_positions d ps po 0 = spec_axis_positions p0 o0 (int X)"
    and "axis_positions d ps po 1 = spec_axis_positions p1 o1 (int Y)"
    and "axis_positions d ps po 2 = spec_axis_positions p2 o2 (int Z)"
  unfolding axis_positions_def grid_range_concrete[OF d ps po off] axis_bounds_concrete[OF d ps po]
    spec_axis_positions_code[OF off(1)] spec_axis_positions_code[OF off(2)]
    spec_axis_positions_code[OF off(3)]
  by simp_all

lemma patch_positions_spec:
  assumes d: "shape d = [X, Y, Z, 1]" and off: "o0 < p0" "o1 < p1" "o2 < p2"
  shows "patch_positions d [p0, p1, p2] [o0, o1, o2] =
         spec_patch_positions [X, Y, Z] [p0, p1, p2] [o0, o1, o2]"
  unfolding patch_positions_def spec_patch_positions_def
    axis_positions_spec[OF d refl refl off]
  by simp

lemma patch_bounds_fits_any:
  assumes i: "0 \<le> i" and p: "0 < p" and off: "off < p"
    and b: "patch_bounds i p off (int n) = Some b"
  shows "fits (nat p) n b"
proof (cases "int n \<le> i * (p - off) + p")
  case True
  with b have "b = (int n - p, int n)" and "0 \<le> int n - p"
    by (auto simp: patch_bounds_def Let_def split: if_splits)
  with p show ?thesis
    unfolding fits_def by (intro exI[of _ "nat (int n - p)"]) auto
next
  case False
  with b have bb: "b = (i * (p - off), i * (p - off) + p)"
    by (auto simp: patch_bounds_def Let_def split: if_splits)
  from i off have nn: "0 \<le> i * (p - off)" by simp
  with False p bb show ?thesis
    unfolding fits_def by (intro exI[of _ "nat (i * (p - off))"]) auto
qed

lemma axis_positions_fit_any:
  assumes d: "shape d = [X, Y, Z, 1]" and ps: "ps = [p0, p1, p2]" and po: "po = [o0, o1, o2]"
    and off: "o0 < p0" "o1 < p1" "o2 < p2" and pos: "0 < p0" "0 < p1" "0 < p2"
  shows "b \<in> set (axis_positions d ps po 0) \<Longrightarrow> fits (nat p0) X b"
    and "b \<in> set (axis_positions d ps po 1) \<Longrightarrow> fits (nat p1) Y b"
    and "b \<in> set (axis_positions d ps po 2) \<Longrightarrow> fits (nat p2) Z b"
  unfolding axis_positions_def grid_range_concrete[OF d ps po off] axis_bounds_concrete[OF d ps po]
  using off pos
  by (auto split: option.splits dest!: py_range_nonneg intro: patch_bounds_fits_any)

lemma patch_apply_calls:
  assumes d: "shape d = [X, Y, Z, 1]"
    and fit: "fits px X bx" "fits py Y by" "fits pz Z bz"
    and run: "patch_apply m d deep bx by bz fr calls = (r, calls')"
  shows "map Inr calls' = map Inr calls @ [patch_input d (bx, by, bz)]"
proof -
  from fit obtain lx ly lz where
    b: "bx = (int lx, int lx + int px)" "by = (int ly, int ly + int py)" "bz = (int lz, int lz + int pz)"
    and le: "lx + px \<le> X" "ly + py \<le> Y" "lz + pz \<le> Z"
    unfolding fits_def by blast
  obtain patch where g: "getitem d (patch_selector bx by bz) = Inr patch"
    unfolding b using resolve_patch[where sel="[]" and rest="[1]", OF le]
    by (simp add: getitem_def d)
  from run show ?thesis
    unfolding patch_apply_def
    by (auto simp: g invoke_def patch_input_def split: option.splits)
qed

lemma patch_sweep_calls:
  fixes d :: ndarray
  assumes d: "shape d = [X, Y, Z, 1]"
  shows "list_all (\<lambda>b. fits px X (fst b) \<and> fits py Y (fst (snd b)) \<and> fits pz Z (snd (snd b))) qs \<Longrightarrow>
         patch_sweep m d deep qs fr calls = (Inr fr', calls') \<Longrightarrow>
         map Inr calls' = map Inr calls @ map (patch_input d) qs"
proof (induction qs arbitrary: fr calls)
  case Nil
  then show ?case by (simp add: patch_sweep_def)
next
  case (Cons q qs)
  obtain bx "by" bz where q: "q = (bx, by, bz)" by (cases q) auto
  from Cons.prems(1) have fit: "fits px X bx" "fits py Y by" "fits pz Z bz"
    and rest: "list_all (\<lambda>b. fits px X (fst b) \<and> fits py Y (fst (snd b)) \<and> fits pz Z (snd (snd b))) qs"
    by (simp_all add: q)
  from Cons.prems(2) obtain fr1 calls1 where
    step: "patch_apply m d deep bx by bz fr calls = (Inr fr1, calls1)"
    and run: "patch_sweep m d deep qs fr1 calls1 = (Inr fr', calls')"
    by (auto simp: patch_sweep_def q split: sum.splits prod.splits)
  from patch_apply_calls[OF d fit step] Cons.IH[OF rest run] show ?case
    by (simp add: q)
qed

lemma spec_positions_fit:
  fixes d :: ndarray
  assumes d: "shape d = [X, Y, Z, 1]"
    and off: "o0 < p0" "o1 < p1" "o2 < p2" and pos: "0 < p0" "0 < p1" "0 < p2"
  shows "list_all (\<lambda>b. fits (nat p0) X (fst b) \<and> fits (nat p1) Y (fst (snd b)) \<and>
           fits (nat p2) Z (snd (snd b)))
         (spec_patch_positions [X, Y, Z] [p0, p1, p2] [o0, o1, o2])"
  unfolding list_all_iff
proof
  fix b assume "b \<in> set (spec_patch_positions [X, Y, Z] [p0, p1, p2] [o0, o1, o2])"
  then have "b \<in> set (patch_positions d [p0, p1, p2] [o0, o1, o2])"
    by (simp only: patch_positions_spec[OF d off])
  then have "fst b \<in> set (axis_positions d [p0, p1, p2] [o0, o1, o2] 0)"
    "fst (snd b) \<in> set (axis_positions d [p0, p1, p2] [o0, o1, o2] 1)"
    "snd (snd b) \<in> set (axis_positions d [p0, p1, p2] [o0, o1, o2] 2)"
    by (auto simp: patch_positions_def)
  with axis_positions_fit_any[OF d refl refl off pos]
  show "fits (nat p0) X (fst b) \<and> fits (nat p1) Y (fst (snd b)) \<and>
    fits (nat p2) Z (snd (snd b))" by blast
qed

lemma patch_loops_spec:
  fixes X Y Z C :: nat
  assumes d: "shape d = [X, Y, Z, 1]" and fr: "shape fr = [X, Y, Z, C]"
    and pos: "0 < p0" "0 < p1" "0 < p2" and off: "o0 < p0" "o1 < p1" "o2 < p2"
    and model: "\<And>inp. \<exists>out rest. m inp = Some (out # rest) \<and>
                  shape out = [1, nat p0, nat p1, nat p2, C]"
  shows "\<exists>xs fr' calls'.
           grid_range d [p0, p1, p2] [o0, o1, o2] 0 = Inr xs \<and>
           for_range (patch_loop_x m d [p0, p1, p2] [o0, o1, o2] deep) xs fr calls =
             (Inr fr', calls') \<and>
           map Inr calls' =
             map Inr calls @
             map (patch_input d) (spec_patch_positions [X, Y, Z] [p0, p1, p2] [o0, o1, o2]) \<and>
           shape fr' = shape fr \<and>
           (\<forall>x y z c. c < C \<longrightarrow>
              elems fr' [x, y, z, c] =
                Max (insert (elems fr [x, y, z, c])
                  ((\<lambda>b. patch_prediction m d b x y z c) `
                   {b \<in> set (spec_patch_positions [X, Y, Z] [p0, p1, p2] [o0, o1, o2]).
                      covers b x y z})))"
proof -
  let ?P = "spec_patch_positions [X, Y, Z] [p0, p1, p2] [o0, o1, o2]"
  note eq = patch_positions_spec[OF d off]
  from grid_range_concrete(1)[OF d refl refl off] obtain xs where
    gx: "grid_range d [p0, p1, p2] [o0, o1, o2] 0 = Inr xs" by blast
  have loops: "for_range (patch_loop_x m d [p0, p1, p2] [o0, o1, o2] deep) xs fr calls =
      patch_sweep m d deep ?P fr calls"
    using nested_loops_are_sweep[OF d refl refl off gx] by (simp only: eq)
  note fit = spec_positions_fit[OF d off pos]
  from patch_sweep_fold[where m=m and deep=deep and calls=calls, OF d model fit fr]
  obtain fr' calls' where
    run: "patch_sweep m d deep ?P fr calls = (Inr fr', calls')"
    and sh': "shape fr' = [X, Y, Z, C]"
    and el: "\<And>x y z c. c < C \<Longrightarrow> elems fr' [x, y, z, c] =
              fold (\<lambda>b a. if covers b x y z then max (patch_prediction m d b x y z c) a else a)
                ?P (elems fr [x, y, z, c])"
    by auto
  have "elems fr' [x, y, z, c] =
          Max (insert (elems fr [x, y, z, c])
             ((\<lambda>b. patch_prediction m d b x y z c) ` {b \<in> set ?P. covers b x y z}))"
    if "c < C" for x y z c
    unfolding el[OF that] by (rule fold_max_set)
  moreover note patch_sweep_calls[OF d fit run]
  ultimately show ?thesis using gx loops run sh' fr by auto
qed

lemma patch_run_spec:
  fixes X Y Z C :: nat
  assumes mode: "new_axial_size parameters = None"
    and vol: "shape data = [X, Y, Z]"
    and ps: "training_patch_size parameters = [p0, p1, p2]"
    and po: "training_patch_offset parameters = [o0, o1, o2]"
    and nb: "training_nb_classes parameters = int C"
    and pos: "0 < p0" "0 < p1" "0 < p2" and off: "o0 < p0" "o1 < p1" "o2 < p2"
    and model: "\<And>inp. \<exists>out rest. m inp = Some (out # rest) \<and>
                  shape out = [1, nat p0, nat p1, nat p2, C]"
    and pad: "padding_for_inference_both_ends_patchwise data [p0, p1, p2] = Inr (d', extra)"
  shows "\<exists>r calls.
           run_predictions m data parameters = ((Inr r, calls), parameters) \<and>
           map Inr calls =
             map (patch_input (expand_dims_last d'))
               (spec_patch_positions (shape d') [p0, p1, p2] [o0, o1, o2])"
proof -
  let ?d = "expand_dims_last d'"
  let ?deep = "training_deep_supervision parameters"
  let ?fr0 = "\<lparr>shape = shape d' @ [C], elems = (\<lambda>idx. 0::real), dtype = Float64\<rparr>"
  obtain l0 t0 l1 t1 l2 t2 where extra: "extra = (l0, t0, l1, t1, l2, t2)"
    by (cases extra) auto
  note sh = padding_patchwise_shape[OF pad[unfolded extra] vol]
  define X' Y' Z' where "X' = nat l0 + X + nat t0" and "Y' = nat l1 + Y + nat t1"
    and "Z' = nat l2 + Z + nat t2"
  from sh have sd: "shape d' = [X', Y', Z']" by (simp add: X'_def Y'_def Z'_def)
  have d: "shape ?d = [X', Y', Z', 1]"
    using sd by (simp add: expand_dims_last_def)
  have fr0: "shape ?fr0 = [X', Y', Z', C]" using sd by simp
  have z: "np_zeros (map int (shape d') @ [training_nb_classes parameters]) = Inr ?fr0"
    by (simp add: np_zeros_def nb list_ex_iff comp_def)
  from patch_loops_spec[where m=m and deep="?deep" and calls="[]", OF d fr0 pos off model]
  obtain xs fr' calls where
    gx: "grid_range ?d [p0, p1, p2] [o0, o1, o2] 0 = Inr xs"
    and loops: "for_range (patch_loop_x m ?d [p0, p1, p2] [o0, o1, o2] ?deep) xs ?fr0 [] =
      (Inr fr', calls)"
    and calls: "map Inr calls =
      map (patch_input ?d) (spec_patch_positions [X', Y', Z'] [p0, p1, p2] [o0, o1, o2])"
    and sh': "shape fr' = shape ?fr0"
    by auto
  from sh' fr0 have "shape fr' = [nat l0 + X + nat t0, nat l1 + Y + nat t1, nat l2 + Z + nat t2, C]"
    by (simp add: X'_def Y'_def Z'_def)
  from strip_padding_elems[OF this] sh obtain r where
    strip: "strip_padding fr' (l0, t0, l1, t1, l2, t2) = Inr r"
    by blast
  have "patch_try m data parameters ?deep = (Inr r, calls)"
    unfolding patch_try_def Let_def ps po
    by (simp add: pad extra z gx loops strip)
  then have "run_predictions m data parameters = ((Inr r, calls), parameters)"
    by (simp add: run_predictions_def mode run_predictions_patch_def)
  with calls sd show ?thesis by simp
qed

text \<open>
  Claim C5. Patches of positive extents, offsets below them, and a model whose first output
  has one batch element, the extents of the patch and \<open>C\<close> classes. First part: the three
  nested loops, on any volume \<open>d\<close> with its channel axis, any accumulator \<open>fr\<close> of the same
  extents and any earlier record of calls. The loops end without an exception. The model
  is called on exactly the patches at the positions of \<open>spec_patch_positions\<close>, in this
  order: for every grid index of every axis the candidate patch, shifted back by its
  overflow where its upper bound would exceed the extent, and no patch for an index whose
  shifted patch would start below 0. Every entry of the accumulator ends as the maximum of
  its earlier value and the values predicted for it by the patches at these positions that
  cover it, so a skipped index calls nothing and writes nothing. Second part: a run in
  patch mode does this with the padded volume \<open>d'\<close>, and its calls are the patches of \<open>d'\<close>
  at these positions.
\<close>

theorem patch_shift_or_skip:
  fixes X Y Z U V W C :: nat
  assumes pos: "0 < p0" "0 < p1" "0 < p2" and off: "o0 < p0" "o1 < p1" "o2 < p2"
    and model: "\<And>inp. \<exists>out rest. m inp = Some (out # rest) \<and>
                  shape out = [1, nat p0, nat p1, nat p2, C]"
    and d: "shape d = [X, Y, Z, 1]" and fr: "shape fr = [X, Y, Z, C]"
    and mode: "new_axial_size parameters = None"
    and vol: "shape data = [U, V, W]"
    and ps: "training_patch_size parameters = [p0, p1, p2]"
    and po: "training_patch_offset parameters = [o0, o1, o2]"
    and nb: "training_nb_classes parameters = int C"
    and pad: "padding_for_inference_both_ends_patchwise data [p0, p1, p2] = Inr (d', extra)"
  shows "(\<exists>xs fr' calls'.
            grid_range d [p0, p1, p2] [o0, o1, o2] 0 = Inr xs \<and>
            for_range (patch_loop_x m d [p0, p1, p2] [o0, o1, o2] deep) xs fr calls =
              (Inr fr', calls') \<and>
            map Inr calls' =
              map Inr calls @
              map (patch_input d) (spec_patch_positions [X, Y, Z] [p0, p1, p2] [o0, o1, o2]) \<and>
            shape fr' = shape fr \<and>
            (\<forall>x y z c. c < C \<longrightarrow>
               elems fr' [x, y, z, c] =
                 Max (insert (elems fr [x, y, z, c])
                   ((\<lambda>b. patch_prediction m d b x y z c) `
                    {b \<in> set (spec_patch_positions [X, Y, Z] [p0, p1, p2] [o0, o1, o2]).
                       covers b x y z})))) \<and>
         (\<exists>r calls.
            run_predictions m data parameters = ((Inr r, calls), parameters) \<and>
            map Inr calls =
              map (patch_input (expand_dims_last d'))
                (spec_patch_positions (shape d') [p0, p1, p2] [o0, o1, o2]))"
proof
  show "\<exists>xs fr' calls'.
            grid_range d [p0, p1, p2] [o0, o1, o2] 0 = Inr xs \<and>
            for_range (patch_loop_x m d [p0, p1, p2] [o0, o1, o2] deep) xs fr calls =
              (Inr fr', calls') \<and>
            map Inr calls' =
              map Inr calls @
              map (patch_input d) (spec_patch_positions [X, Y, Z] [p0, p1, p2] [o0, o1, o2]) \<and>
            shape fr' = shape fr \<and>
            (\<forall>x y z c. c < C \<longrightarrow>
               elems fr' [x, y, z, c] =
                 Max (insert (elems fr [x, y, z, c])
                   ((\<lambda>b. patch_prediction m d b x y z c) `
                    {b \<in> set (spec_patch_positions [X, Y, Z] [p0, p1, p2] [o0, o1, o2]).
                       covers b x y z})))"
    by (rule patch_loops_spec[OF d fr pos off]) (rule model)
  show "\<exists>r calls.
            run_predictions m data parameters = ((Inr r, calls), parameters) \<and>
            map Inr calls =
              map (patch_input (expand_dims_last d'))
                (spec_patch_positions (shape d') [p0, p1, p2] [o0, o1, o2])"
    by (rule patch_run_spec[OF mode vol ps po nb pos off _ pad]) (rule model)
qed

theorem patch_shift_or_skip_witness:
  "spec_patch_positions [1, 1, 3] [1, 1, 2] [0, 0, 1] =
     [((0, 1), (0, 1), (0, 2)), ((0, 1), (0, 1), (1, 3)), ((0, 1), (0, 1), (1, 3))] \<and>
   (\<exists>xs fr' calls'.
      grid_range (expand_dims_last (ramp_volume 2 [1, 1, 3])) [1, 1, 2] [0, 0, 1] 0 = Inr xs \<and>
      for_range (patch_loop_x (relabel_model [1, 1, 1, 2, 1])
                   (expand_dims_last (ramp_volume 2 [1, 1, 3])) [1, 1, 2] [0, 0, 1] True)
        xs (ramp_volume 0 [1, 1, 3, 1]) [] = (Inr fr', calls') \<and>
      map flat calls' = [[1, 2], [2, 3], [2, 3]] \<and>
      map (\<lambda>z. elems fr' [0, 0, z, 0]) [0, 1, 2] = [1, 2, 3]) \<and>
   (\<exists>r calls.
      run_predictions (relabel_model [1, 1, 1, 2, 1]) (ramp_volume 2 [1, 1, 3])
        (patch_config [1, 1, 2] [0, 0, 1] 1) = ((Inr r, calls), patch_config [1, 1, 2] [0, 0, 1] 1) \<and>
      map flat calls = [[1, 2], [2, 3], [2, 3]]) \<and>
   spec_patch_positions [2, 2, 2] [3, 3, 3] [0, 0, 0] = [] \<and>
   (\<exists>xs fr'.
      grid_range (expand_dims_last (ramp_volume 0 [2, 2, 2])) [3, 3, 3] [0, 0, 0] 0 = Inr xs \<and>
      for_range (patch_loop_x (relabel_model [1, 3, 3, 3, 1])
                   (expand_dims_last (ramp_volume 0 [2, 2, 2])) [3, 3, 3] [0, 0, 0] True)
        xs (ramp_volume 0 [2, 2, 2, 1]) [] = (Inr fr', []) \<and>
      elems fr' [1, 1, 1, 0] = 2)"
proof -
  let ?mA = "relabel_model [1, 1, 1, 2, 1]"
  let ?vA = "ramp_volume 2 [1, 1, 3]"
  let ?dA = "expand_dims_last ?vA"
  let ?frA = "ramp_volume 0 [1, 1, 3, 1]"
  let ?cfgA = "patch_config [1, 1, 2] [0, 0, 1] 1"
  let ?padA = "pad_axis (pad_axis (pad_axis ?vA 0 0 0) 1 0 0) 2 0 0"
  let ?mB = "relabel_model [1, 3, 3, 3, 1]"
  let ?vB = "ramp_volume 0 [2, 2, 2]"
  let ?dB = "expand_dims_last ?vB"
  let ?frB = "ramp_volume 0 [2, 2, 2, 1]"
  let ?cfgB = "patch_config [3, 3, 3] [0, 0, 0] 1"
  let ?padB = "pad_axis (pad_axis (pad_axis ?vB 0 0 1) 1 0 1) 2 0 1"
  have posA: "spec_patch_positions [1, 1, 3] [1, 1, 2] [0, 0, 1] =
     [((0, 1), (0, 1), (0, 2)), ((0, 1), (0, 1), (1, 3)), ((0, 1), (0, 1), (1, 3))]"
    by code_simp
  have posB: "spec_patch_positions [2, 2, 2] [3, 3, 3] [0, 0, 0] = []"
    by code_simp
  have inA: "map (map_sum id flat \<circ> patch_input ?dA)
      (spec_patch_positions [1, 1, 3] [1, 1, 2] [0, 0, 1]) = map Inr [[1, 2], [2, 3], [2, 3]]"
    by code_simp
  have flatten: "map flat cs = fs"
    if "map Inr cs = map (patch_input d) P" and "map (map_sum id flat \<circ> patch_input d) P = map Inr fs"
    for cs :: "ndarray list" and d P fs
  proof -
    have l: "map (map_sum id flat) (map Inr cs :: (py_error + ndarray) list) = map Inr (map flat cs)"
      by simp
    from that(1) have "map (map_sum id flat) (map Inr cs :: (py_error + ndarray) list) =
        map (map_sum id flat) (map (patch_input d) P)" by (rule arg_cong)
    also have "\<dots> = map (map_sum id flat \<circ> patch_input d) P" by (rule map_map)
    also note that(2)
    finally have "map Inr (map flat cs) = (map Inr fs :: (py_error + real list) list)"
      by (simp only: l)
    then show ?thesis by (simp only: inj_map_eq_map[OF inj_Inr])
  qed
  have modelA: "\<And>inp. \<exists>out rest. ?mA inp = Some (out # rest) \<and>
      shape out = [1, nat 1, nat 1, nat 2, 1]"
    by (simp add: relabel_model_def)
  have modelB: "\<And>inp. \<exists>out rest. ?mB inp = Some (out # rest) \<and>
      shape out = [1, nat 3, nat 3, nat 3, 1]"
    by (simp add: relabel_model_def)
  have dA: "shape ?dA = [1, 1, 3, 1]" and frA: "shape ?frA = [1, 1, 3, 1]"
    and volA: "shape ?vA = [1, 1, 3]"
    and dB: "shape ?dB = [2, 2, 2, 1]" and frB: "shape ?frB = [2, 2, 2, 1]"
    and volB: "shape ?vB = [2, 2, 2]"
    by (simp_all add: expand_dims_last_def ramp_volume_def)
  have cfgA: "new_axial_size ?cfgA = None" "training_patch_size ?cfgA = [1, 1, 2]"
    "training_patch_offset ?cfgA = [0, 0, 1]" "training_nb_classes ?cfgA = int 1"
    and cfgB: "new_axial_size ?cfgB = None" "training_patch_size ?cfgB = [3, 3, 3]"
    "training_patch_offset ?cfgB = [0, 0, 0]" "training_nb_classes ?cfgB = int 1"
    by (simp_all add: patch_config_def)
  have padA: "padding_for_inference_both_ends_patchwise ?vA [1, 1, 2] = Inr (?padA, 0, 0, 0, 0, 0, 0)"
    by (simp add: padding_for_inference_both_ends_patchwise_def ramp_volume_def)
  have padB: "padding_for_inference_both_ends_patchwise ?vB [3, 3, 3] = Inr (?padB, 0, 1, 0, 1, 0, 1)"
    by (simp add: padding_for_inference_both_ends_patchwise_def ramp_volume_def)
  note A = patch_shift_or_skip[where m="?mA" and C=1 and deep=True and calls="[]",
      OF _ _ _ _ _ _ modelA dA frA cfgA(1) volA cfgA(2-4) padA]
  have A': "(\<exists>xs fr' calls'.
            grid_range ?dA [1, 1, 2] [0, 0, 1] 0 = Inr xs \<and>
            for_range (patch_loop_x ?mA ?dA [1, 1, 2] [0, 0, 1] True) xs ?frA [] =
              (Inr fr', calls') \<and>
            map Inr calls' =
              map Inr [] @
              map (patch_input ?dA) (spec_patch_positions [1, 1, 3] [1, 1, 2] [0, 0, 1]) \<and>
            shape fr' = shape ?frA \<and>
            (\<forall>x y z c. c < 1 \<longrightarrow>
               elems fr' [x, y, z, c] =
                 Max (insert (elems ?frA [x, y, z, c])
                   ((\<lambda>b. patch_prediction ?mA ?dA b x y z c) `
                    {b \<in> set (spec_patch_positions [1, 1, 3] [1, 1, 2] [0, 0, 1]).
                       covers b x y z})))) \<and>
         (\<exists>r calls.
            run_predictions ?mA ?vA ?cfgA = ((Inr r, calls), ?cfgA) \<and>
            map Inr calls =
              map (patch_input (expand_dims_last ?padA))
                (spec_patch_positions (shape ?padA) [1, 1, 2] [0, 0, 1]))"
    by (rule A) simp_all
  note B = patch_shift_or_skip[where m="?mB" and C=1 and deep=True and calls="[]",
      OF _ _ _ _ _ _ modelB dB frB cfgB(1) volB cfgB(2-4) padB]
  have B': "(\<exists>xs fr' calls'.
            grid_range ?dB [3, 3, 3] [0, 0, 0] 0 = Inr xs \<and>
            for_range (patch_loop_x ?mB ?dB [3, 3, 3] [0, 0, 0] True) xs ?frB [] =
              (Inr fr', calls') \<and>
            map Inr calls' =
              map Inr [] @
              map (patch_input ?dB) (spec_patch_positions [2, 2, 2] [3, 3, 3] [0, 0, 0]) \<and>
            shape fr' = shape ?frB \<and>
            (\<forall>x y z c. c < 1 \<longrightarrow>
               elems fr' [x, y, z, c] =
                 Max (insert (elems ?frB [x, y, z, c])
                   ((\<lambda>b. patch_prediction ?mB ?dB b x y z c) `
                    {b \<in> set (spec_patch_positions [2, 2, 2] [3, 3, 3] [0, 0, 0]).
                       covers b x y z}))))"
    by (rule conjunct1[OF B]) simp_all
  from A' obtain xs fr' calls' where
    a1: "grid_range ?dA [1, 1, 2] [0, 0, 1] 0 = Inr xs"
    and a2: "for_range (patch_loop_x ?mA ?dA [1, 1, 2] [0, 0, 1] True) xs ?frA [] = (Inr fr', calls')"
    and a3: "map Inr calls' = map (patch_input ?dA) (spec_patch_positions [1, 1, 3] [1, 1, 2] [0, 0, 1])"
    by auto
  from A' obtain r calls where
    a4: "run_predictions ?mA ?vA ?cfgA = ((Inr r, calls), ?cfgA)"
    and a5: "map Inr calls = map (patch_input (expand_dims_last ?padA))
                (spec_patch_positions (shape ?padA) [1, 1, 2] [0, 0, 1])"
    by blast
  have padded: "map (map_sum id flat \<circ> patch_input (expand_dims_last ?padA))
      (spec_patch_positions (shape ?padA) [1, 1, 2] [0, 0, 1]) = map Inr [[1, 2], [2, 3], [2, 3]]"
    by code_simp
  from B' obtain ys fr2 calls2 where
    b1: "grid_range ?dB [3, 3, 3] [0, 0, 0] 0 = Inr ys"
    and b2: "for_range (patch_loop_x ?mB ?dB [3, 3, 3] [0, 0, 0] True) ys ?frB [] = (Inr fr2, calls2)"
    and b3: "map Inr calls2 = map Inr [] @
              map (patch_input ?dB) (spec_patch_positions [2, 2, 2] [3, 3, 3] [0, 0, 0])"
    and b4: "\<And>x y z c. c < 1 \<Longrightarrow> elems fr2 [x, y, z, c] =
                 Max (insert (elems ?frB [x, y, z, c])
                   ((\<lambda>b. patch_prediction ?mB ?dB b x y z c) `
                    {b \<in> set (spec_patch_positions [2, 2, 2] [3, 3, 3] [0, 0, 0]).
                       covers b x y z}))"
    by blast
  from b3 have c2: "calls2 = []" by (simp add: posB)
  from b4[of 0 1 1 1] have e2: "elems fr2 [1, 1, 1, 0] = 2"
    by (simp add: posB ramp_volume_def)
  note f1 = flatten[OF a3 inA] and f2 = flatten[OF a5 padded] and b2' = b2[unfolded c2]
  have "case grid_range ?dA [1, 1, 2] [0, 0, 1] 0 of
          Inl e \<Rightarrow> False
        | Inr xs \<Rightarrow>
            (case for_range (patch_loop_x ?mA ?dA [1, 1, 2] [0, 0, 1] True) xs ?frA [] of
               (Inl e, cs) \<Rightarrow> False
             | (Inr fr', cs) \<Rightarrow> map (\<lambda>z. elems fr' [0, 0, z, 0]) [0, 1, 2] = [1, 2, 3])"
    by code_simp
  with a1 a2 have e1: "map (\<lambda>z. elems fr' [0, 0, z, 0]) [0, 1, 2] = [1, 2, 3]"
    by simp
  have P1: "\<exists>xs fr' calls'.
      grid_range ?dA [1, 1, 2] [0, 0, 1] 0 = Inr xs \<and>
      for_range (patch_loop_x ?mA ?dA [1, 1, 2] [0, 0, 1] True) xs ?frA [] = (Inr fr', calls') \<and>
      map flat calls' = [[1, 2], [2, 3], [2, 3]] \<and>
      map (\<lambda>z. elems fr' [0, 0, z, 0]) [0, 1, 2] = [1, 2, 3]"
    using a1 a2 f1 e1 by (intro exI[of _ xs] exI[of _ fr'] exI[of _ calls'] conjI)
  have P2: "\<exists>r calls.
      run_predictions ?mA ?vA ?cfgA = ((Inr r, calls), ?cfgA) \<and>
      map flat calls = [[1, 2], [2, 3], [2, 3]]"
    using a4 f2 by (intro exI[of _ r] exI[of _ calls] conjI)
  have P3: "\<exists>xs fr'.
      grid_range ?dB [3, 3, 3] [0, 0, 0] 0 = Inr xs \<and>
      for_range (patch_loop_x ?mB ?dB [3, 3, 3] [0, 0, 0] True) xs ?frB [] = (Inr fr', []) \<and>
      elems fr' [1, 1, 1, 0] = 2"
    using b1 b2' e2 by (intro exI[of _ ys] exI[of _ fr2] conjI)
  from posA P1 P2 posB P3 show ?thesis by (intro conjI)
qed




section \<open>Runs on concrete inputs\<close>

text \<open>
  Claim C2 at a concrete input (the claim: in sliding-window slab mode with a slab size
  above 1, every slice along the slicing axis is written at least once). Axial slicing,
  slab size 2, a volume of four slices none of which is empty, and a model that answers 7
  everywhere: the model is called three times, and the last slice of the result is still
  the 0 it was created with.
\<close>

theorem sliding_window_leaves_slice_unwritten:
  "observed (fst (fst (run_predictions (constant_model 7) (ramp_volume 2 [1, 1, 4])
       (slab_config ''axial'' 2 [1, 1])))) = Inr ([1, 1, 4, 1], [7, 7, 7, 0]) \<and>
   length (snd (fst (run_predictions (constant_model 7) (ramp_volume 2 [1, 1, 4])
       (slab_config ''axial'' 2 [1, 1])))) = 3"
  by code_simp

text \<open>
  Claim C3 at a concrete input (the claim: for every slicing plane the slice written at
  index \<open>i\<close> is the central output slice of the window centred on \<open>i\<close>). The model hands
  its input back, so the central output slice of a window is the slice of the volume the
  window is centred on, and a centred write reproduces the volume 1, 2, 3, 4. With
  sagittal and with coronal slicing the result holds, at slice \<open>i\<close>, the slice \<open>i - 1\<close> of
  the volume: the write goes one slice (half a slab) too far.
\<close>

theorem sliding_window_off_centre:
  "observed (fst (fst (run_predictions identity_model (ramp_volume 0 [4, 1, 1])
       (slab_config ''sagittal'' 2 [1, 1])))) = Inr ([4, 1, 1, 1], [0, 1, 2, 3]) \<and>
   observed (fst (fst (run_predictions identity_model (ramp_volume 1 [1, 4, 1])
       (slab_config ''coronal'' 2 [1, 1])))) = Inr ([1, 4, 1, 1], [0, 1, 2, 3]) \<and>
   observed (fst (fst (run_predictions identity_model (ramp_volume 2 [1, 1, 4])
       (slab_config ''axial'' 2 [1, 1])))) = Inr ([1, 1, 4, 1], [1, 2, 3, 0])"
  by code_simp

text \<open>
  Claim C8 at a concrete input (the claim: no field of the configuration differs after
  the call). Slab mode with \<open>swap_training_input\<close> set: the configuration comes back with
  the two entries of \<open>new_axial_size\<close> exchanged.
\<close>

theorem swap_mutates_configuration:
  "new_axial_size (snd (run_predictions identity_model (ramp_volume 0 [4, 1, 1])
       ((slab_config ''sagittal'' 2 [1, 2])\<lparr>swap_training_input := True\<rparr>))) = Some [2, 1]"
  by code_simp

text \<open>
  Claim C9 at a concrete input (the claim: with slab size 1 the slices are taken along the
  axis that \<open>slicing_plane\<close> names). Sagittal slicing of a volume of shape (2, 1, 1): its
  sagittal slices are 1 by 1. With \<open>new_axial_size\<close> (1, 1) the run fails, because the
  slice it takes is the axial one, of shape (2, 1); with \<open>new_axial_size\<close> (2, 1) the model
  is called once, on that axial slice.
\<close>

theorem single_slice_mode_ignores_plane:
  "observed (fst (fst (run_predictions identity_model (ramp_volume 0 [2, 1, 1])
       (slab_config ''sagittal'' 1 [1, 1])))) = Inl (ValueError slab_msg) \<and>
   map shape (snd (fst (run_predictions identity_model (ramp_volume 0 [2, 1, 1])
       (slab_config ''sagittal'' 1 [2, 1])))) = [[1, 2, 1, 1]]"
  by code_simp

text \<open>
  Claim C10 at a concrete input (the claim: with slab size 1 a slice that holds no voxel
  above 0.1 is skipped, the model is not called for it, and its probabilities stay 0).
  Sagittal slicing of a volume of shape (2, 2, 2) whose sagittal slice 0 has intensity 1
  and whose sagittal slice 1 is empty, with a model that answers 7 everywhere. The loop
  takes the slices of axis 2, neither of which is empty: the model is called twice, each
  time on an axial slice that holds half of the empty sagittal slice, and every probability
  of the empty sagittal slice is 7. With axial slicing, the empty axial slice of the
  volume turned accordingly is skipped and stays 0.
\<close>

theorem empty_sagittal_slice_is_written:
  "map (elems (lit_volume 0 1 [2, 2, 2])) [[1, 0, 0], [1, 0, 1], [1, 1, 0], [1, 1, 1]] =
     [0, 0, 0, 0] \<and>
   map flat (snd (fst (run_predictions (constant_model 7) (lit_volume 0 1 [2, 2, 2])
       (slab_config ''sagittal'' 1 [2, 2])))) = [[1, 1, 0, 0], [1, 1, 0, 0]] \<and>
   observed (fst (fst (run_predictions (constant_model 7) (lit_volume 0 1 [2, 2, 2])
       (slab_config ''sagittal'' 1 [2, 2])))) = Inr ([2, 2, 2, 1], [7, 7, 7, 7, 7, 7, 7, 7]) \<and>
   observed (fst (fst (run_predictions (constant_model 7) (lit_volume 2 1 [2, 2, 2])
       (slab_config ''axial'' 1 [2, 2])))) = Inr ([2, 2, 2, 1], [7, 0, 7, 0, 7, 0, 7, 0])"
  by code_simp

end
